theory Spec2Isabelle
  imports Main "HOL-Library.Word"
begin

section \<open>xopen: buffered readers and writers with transparent compression\<close>

text \<open>
  A shallow embedding of \<^verbatim>\<open>xopen.go\<close>. Byte streams are lists of bytes with the
  error the stream reports once its bytes are used up; Go's \<^verbatim>\<open>error\<close> results are
  values of the datatype \<open>error\<close>; the operating system, the user database, the HTTP
  client, the process table and the three codecs are fields of the record \<open>world\<close>,
  which every operation that touches them takes as an argument.
\<close>

subsection \<open>Errors, bytes and streams\<close>

type_synonym byte = "8 word"

text \<open>
  \<open>EOF\<close> is \<^verbatim>\<open>io.EOF\<close>, \<open>ErrNoContent\<close> and \<open>ErrDirNotSupported\<close> are the two
  package-level errors, \<open>StdinNotDetected\<close> is \<^verbatim>\<open>errors.New("stdin not detected")\<close>,
  \<open>HttpStatus f s\<close> and \<open>NonDirectoryParent d\<close> are the two \<^verbatim>\<open>fmt.Errorf\<close> values,
  \<open>ENOENT\<close> and \<open>ENOTDIR\<close> are the two errors of the OS for a path that is not
  there (\<^verbatim>\<open>os.IsNotExist\<close> holds of the first only), and \<open>External m\<close> is any other
  error made by a collaborator (the OS, a codec, the HTTP client, the user database),
  with its message.
\<close>

datatype error =
    EOF
  | ErrNoContent
  | ErrDirNotSupported
  | StdinNotDetected
  | HttpStatus string string
  | NonDirectoryParent string
  | ENOENT
  | ENOTDIR
  | External string

text \<open>
  An \<^verbatim>\<open>io.Reader\<close> as the bytes it delivers and the error it returns after the last
  of them (\<open>EOF\<close> for a stream that simply ends).
\<close>

record stream =
  bytes :: "byte list"
  final :: error

subsection \<open>bufio.Reader\<close>

text \<open>
  The buffered reader of Go's \<^verbatim>\<open>bufio\<close>, as far as \<^verbatim>\<open>xopen.go\<close> uses it:
  \<open>rd_data\<close> is every byte of the underlying stream, \<open>rd_pos\<close> the read position in
  it, \<open>rd_final\<close> the underlying stream's last error and \<open>lastRuneSize\<close> the size of
  the rune read by the last operation (\<open>-1\<close> when the last operation was not
  \<^verbatim>\<open>ReadRune\<close>).
\<close>

record bufio_Reader =
  rd_data :: "byte list"
  rd_final :: error
  rd_pos :: nat
  lastRuneSize :: int

definition bufSize :: nat where
  "bufSize = 65536"

definition NewReaderSize :: "stream \<Rightarrow> bufio_Reader" where
  "NewReaderSize s = \<lparr>rd_data = bytes s, rd_final = final s, rd_pos = 0, lastRuneSize = -1\<rparr>"

text \<open>The bytes the next reads deliver, and the stream that is left.\<close>

definition unread :: "bufio_Reader \<Rightarrow> byte list" where
  "unread b = drop (rd_pos b) (rd_data b)"

definition rest :: "bufio_Reader \<Rightarrow> stream" where
  "rest b = \<lparr>bytes = unread b, final = rd_final b\<rparr>"

text \<open>
  \<^verbatim>\<open>Peek(n)\<close>: the next \<open>n\<close> bytes without advancing. With fewer than \<open>n\<close> bytes
  before the stream's end it returns what there is and the stream's error; a request
  larger than the buffer is \<^verbatim>\<open>ErrBufferFull\<close>.
\<close>

definition Peek :: "bufio_Reader \<Rightarrow> nat \<Rightarrow> (byte list \<times> error option) \<times> bufio_Reader" where
  "Peek b n =
     (let b' = b\<lparr>lastRuneSize := -1\<rparr> in
      if n > bufSize then ((take bufSize (unread b), Some (External ''bufio: buffer full'')), b')
      else if length (unread b) < n then ((unread b, Some (rd_final b)), b')
      else ((take n (unread b), None), b'))"

subsection \<open>UTF-8 decoding of one rune\<close>

text \<open>
  \<^verbatim>\<open>utf8.DecodeRune\<close> of Go's standard library: the table \<^verbatim>\<open>first\<close> gives, for a
  leading byte, the length of the sequence and the range accepted for the second
  byte; an invalid or incomplete sequence decodes to \<open>RuneError\<close> with size 1, an empty
  input to \<open>RuneError\<close> with size 0.
\<close>

definition RuneError :: nat where
  "RuneError = 0xFFFD"

definition first_byte :: "byte \<Rightarrow> (nat \<times> byte \<times> byte) option" where
  "first_byte p0 =
     (if 0xC2 \<le> p0 \<and> p0 \<le> 0xDF then Some (2, 0x80, 0xBF)
      else if p0 = 0xE0 then Some (3, 0xA0, 0xBF)
      else if 0xE1 \<le> p0 \<and> p0 \<le> 0xEC then Some (3, 0x80, 0xBF)
      else if p0 = 0xED then Some (3, 0x80, 0x9F)
      else if 0xEE \<le> p0 \<and> p0 \<le> 0xEF then Some (3, 0x80, 0xBF)
      else if p0 = 0xF0 then Some (4, 0x90, 0xBF)
      else if 0xF1 \<le> p0 \<and> p0 \<le> 0xF3 then Some (4, 0x80, 0xBF)
      else if p0 = 0xF4 then Some (4, 0x80, 0x8F)
      else None)"

definition continuation :: "byte \<Rightarrow> bool" where
  "continuation c = (0x80 \<le> c \<and> c \<le> 0xBF)"

definition DecodeRune :: "byte list \<Rightarrow> nat \<times> nat" where
  "DecodeRune p =
     (case p of
        [] \<Rightarrow> (RuneError, 0)
      | p0 # ps \<Rightarrow>
          if p0 < 0x80 then (unat p0, 1)
          else (case first_byte p0 of
              None \<Rightarrow> (RuneError, 1)
            | Some (sz, lo, hi) \<Rightarrow>
                if length p < sz then (RuneError, 1)
                else let b1 = p ! 1 in
                if b1 < lo \<or> hi < b1 then (RuneError, 1)
                else if sz \<le> 2 then (unat p0 mod 32 * 64 + unat b1 mod 64, 2)
                else let b2 = p ! 2 in
                if \<not> continuation b2 then (RuneError, 1)
                else if sz \<le> 3 then
                  (unat p0 mod 16 * 4096 + unat b1 mod 64 * 64 + unat b2 mod 64, 3)
                else let b3 = p ! 3 in
                if \<not> continuation b3 then (RuneError, 1)
                else (unat p0 mod 8 * 262144 + unat b1 mod 64 * 4096
                        + unat b2 mod 64 * 64 + unat b3 mod 64, 4)))"

text \<open>
  \<^verbatim>\<open>ReadRune\<close> fails only when no byte is left, with the stream's error; otherwise it
  decodes one rune and advances by its size. \<^verbatim>\<open>UnreadRune\<close> steps back over the rune
  the last \<^verbatim>\<open>ReadRune\<close> delivered and fails when the last operation was not one.
\<close>

definition ReadRune :: "bufio_Reader \<Rightarrow> (error + nat \<times> nat) \<times> bufio_Reader" where
  "ReadRune b =
     (if unread b = [] then (Inl (rd_final b), b\<lparr>lastRuneSize := -1\<rparr>)
      else let (r, n) = DecodeRune (unread b) in
        (Inr (r, n), b\<lparr>rd_pos := rd_pos b + n, lastRuneSize := int n\<rparr>))"

definition UnreadRune :: "bufio_Reader \<Rightarrow> error option \<times> bufio_Reader" where
  "UnreadRune b =
     (if lastRuneSize b < 0 \<or> int (rd_pos b) < lastRuneSize b
      then (Some (External ''bufio: invalid use of UnreadRune''), b)
      else (None, b\<lparr>rd_pos := rd_pos b - nat (lastRuneSize b), lastRuneSize := -1\<rparr>))"

subsection \<open>The magic-byte sniffer\<close>

text \<open>
  The loop of \<^verbatim>\<open>CheckBytes\<close> over the indices of \<open>buf\<close>. \<open>m\<close> has the length of
  \<open>buf\<close> whenever the loop runs (the peek succeeded), so the third equation is never
  reached from \<open>CheckBytes\<close>.
\<close>

fun bytes_match :: "byte list \<Rightarrow> byte list \<Rightarrow> bool" where
  "bytes_match m [] = True"
| "bytes_match (x # m) (y # buf) = (if x \<noteq> y then False else bytes_match m buf)"
| "bytes_match [] (y # buf) = False"

definition CheckBytes :: "bufio_Reader \<Rightarrow> byte list \<Rightarrow> (bool \<times> error option) \<times> bufio_Reader" where
  "CheckBytes b buf =
     (case Peek b (length buf) of
        ((m, Some err), b') \<Rightarrow> ((False, Some ErrNoContent), b')
      | ((m, None), b') \<Rightarrow> ((bytes_match m buf, None), b'))"

definition gzip_magic :: "byte list" where
  "gzip_magic = [0x1f, 0x8b]"

definition xz_magic :: "byte list" where
  "xz_magic = [0xfd, 0x37, 0x7a, 0x58, 0x5a, 0x00]"

definition zst_magic :: "byte list" where
  "zst_magic = [0x28, 0xB5, 0x2f, 0xfd]"

definition IsGzip :: "bufio_Reader \<Rightarrow> (bool \<times> error option) \<times> bufio_Reader" where
  "IsGzip b = CheckBytes b gzip_magic"

definition IsXz :: "bufio_Reader \<Rightarrow> (bool \<times> error option) \<times> bufio_Reader" where
  "IsXz b = CheckBytes b xz_magic"

definition IsZst :: "bufio_Reader \<Rightarrow> (bool \<times> error option) \<times> bufio_Reader" where
  "IsZst b = CheckBytes b zst_magic"

subsection \<open>Handles, events and the world outside\<close>

datatype format = Gzip | Xz | Zstd

text \<open>
  What can be closed or flushed: the standard streams, an \<^verbatim>\<open>*os.File\<close> opened on
  a path, an HTTP response body, the standard output of a started command, a decoder
  or an encoder of one of the three formats, and the \<^verbatim>\<open>bufio.Writer\<close> of a writer.
\<close>

datatype handle =
    Stdin
  | Stdout
  | FileH string
  | HttpBody string
  | CmdStdout string "string list"
  | DecoderH format
  | EncoderH format
  | BufioW

datatype event =
    Closed handle
  | Flushed handle
  | Started string "string list"
  | MkdirAll string

text \<open>
  What a path of the file system names: a file, with its bytes and its permission bits,
  or a directory. \<open>has_bit n b\<close> tests the bit of value \<open>b\<close> (a power of two) in \<open>n\<close>.
\<close>

datatype node = File "byte list" nat | Directory

definition has_bit :: "nat \<Rightarrow> nat \<Rightarrow> bool" where
  "has_bit n b = (n div b mod 2 = 1)"

text \<open>
  The collaborators of the package, as the results of their calls:
  \<^item> \<open>decode fmt s\<close>: \<^verbatim>\<open>gzip.NewReader\<close>, \<^verbatim>\<open>xz.NewReader\<close>, \<^verbatim>\<open>zstd.NewReader\<close> on
    a reader that delivers \<open>s\<close>: the constructor's error, or the decoded stream;
  \<^item> \<open>encode fmt bs\<close>: the bytes the encoder of \<open>fmt\<close> has handed to its sink once it
    is closed after receiving \<open>bs\<close>; \<open>new_encoder_error fmt\<close>: the error of
    \<^verbatim>\<open>xz.NewWriter\<close> or \<^verbatim>\<open>zstd.NewWriter\<close>, if any;
  \<^item> \<open>fs\<close>: the file system, by path; \<open>umask\<close>: the bits cleared from the
    permissions of a created file; \<open>filepath_Dir\<close>: \<^verbatim>\<open>filepath.Dir\<close>;
  \<^item> \<open>current_user\<close>, \<open>lookup_user name\<close>: \<^verbatim>\<open>user.Current()\<close> and
    \<^verbatim>\<open>user.Lookup(name)\<close>, the error or the user's \<^verbatim>\<open>HomeDir\<close>;
  \<^item> \<open>stdin_stat\<close>: \<^verbatim>\<open>os.Stdin.Stat()\<close>, the error or whether the mode has
    \<^verbatim>\<open>os.ModeCharDevice\<close>; \<open>stdin\<close>: what standard input delivers; \<open>stdout\<close>: the
    bytes written to standard output so far;
  \<^item> \<open>http_Get url\<close>: \<^verbatim>\<open>http.Get\<close>, the error or the status code, the status text
    and the body;
  \<^item> \<open>stdout_pipe name args\<close> and \<open>start name args\<close>: \<^verbatim>\<open>StdoutPipe\<close> and
    \<^verbatim>\<open>Start\<close> of \<^verbatim>\<open>exec.Command(name, args...)\<close>: the error, or for \<open>start\<close> what the
    command writes to its standard output;
  \<^item> \<open>close_error h\<close>, \<open>flush_error h\<close>: the error that closing or flushing \<open>h\<close>
    returns, if any;
  \<^item> \<open>log\<close>: the calls made so far, oldest first.
\<close>

record world =
  decode :: "format \<Rightarrow> stream \<Rightarrow> error + stream"
  encode :: "format \<Rightarrow> byte list \<Rightarrow> byte list"
  new_encoder_error :: "format \<Rightarrow> error option"
  fs :: "string \<Rightarrow> node option"
  umask :: nat
  filepath_Dir :: "string \<Rightarrow> string"
  current_user :: "error + string"
  lookup_user :: "string \<Rightarrow> error + string"
  stdin_stat :: "error + bool"
  stdin :: stream
  stdout :: "byte list"
  http_Get :: "string \<Rightarrow> error + nat \<times> string \<times> stream"
  stdout_pipe :: "string \<Rightarrow> string list \<Rightarrow> error option"
  start :: "string \<Rightarrow> string list \<Rightarrow> error + stream"
  close_error :: "handle \<Rightarrow> error option"
  flush_error :: "handle \<Rightarrow> error option"
  log :: "event list"

definition record_event :: "world \<Rightarrow> event \<Rightarrow> world" where
  "record_event w e = w\<lparr>log := log w @ [e]\<rparr>"

definition close_handle :: "world \<Rightarrow> handle \<Rightarrow> error option \<times> world" where
  "close_handle w h = (close_error w h, record_event w (Closed h))"

definition flush_handle :: "world \<Rightarrow> handle \<Rightarrow> error option \<times> world" where
  "flush_handle w h = (flush_error w h, record_event w (Flushed h))"

subsection \<open>Readers\<close>

text \<open>
  An \<^verbatim>\<open>io.Reader\<close> handed to \<^verbatim>\<open>Buf\<close>: what it delivers, and the handle its
  \<^verbatim>\<open>Close\<close> closes when its dynamic type is an \<^verbatim>\<open>io.ReadCloser\<close> (\<open>None\<close> when it
  is not one).
\<close>

record source =
  content :: stream
  closer :: "handle option"

text \<open>
  \<^verbatim>\<open>type Reader struct { *bufio.Reader; rdr io.Reader; gz io.ReadCloser }\<close>; \<open>gz\<close> is
  \<open>None\<close> for the nil interface.
\<close>

record Reader =
  buffered :: bufio_Reader
  rdr :: source
  gz :: "handle option"

definition Reader_Close :: "world \<Rightarrow> Reader \<Rightarrow> error option \<times> world" where
  "Reader_Close w r =
     (let w1 = (case gz r of Some g \<Rightarrow> snd (close_handle w g) | None \<Rightarrow> w);
          w2 = (case closer (rdr r) of Some c \<Rightarrow> snd (close_handle w1 c) | None \<Rightarrow> w1)
      in (None, w2))"

text \<open>\<^verbatim>\<open>err != nil && err != io.EOF\<close>: the error that makes \<^verbatim>\<open>Buf\<close> return at once.\<close>

definition not_EOF :: "error option \<Rightarrow> error option" where
  "not_EOF err = (case err of None \<Rightarrow> None | Some e \<Rightarrow> if e \<noteq> EOF then Some e else None)"

text \<open>
  Lines 164 to 188 of \<^verbatim>\<open>Buf\<close>: the chain of sniffs. The result is the buffered reader
  the rest of \<^verbatim>\<open>Buf\<close> goes on with and the value of the variable \<^verbatim>\<open>rdr\<close>, which only
  the gzip branch assigns (the xz and zstd branches assign \<^verbatim>\<open>rd\<close>).
\<close>

definition Buf_sniff :: "world \<Rightarrow> bufio_Reader \<Rightarrow> error + bufio_Reader \<times> handle option" where
  "Buf_sniff w b0 =
     (case IsGzip b0 of ((is_gz, err), b1) \<Rightarrow>
       (case not_EOF err of
          Some e \<Rightarrow> Inl e
        | None \<Rightarrow>
            if is_gz then
              (case decode w Gzip (rest b1) of
                 Inl e \<Rightarrow> Inl e
               | Inr s \<Rightarrow> Inr (NewReaderSize s, Some (DecoderH Gzip)))
            else
              (case IsXz b1 of ((is_xz, err), b2) \<Rightarrow>
                (case not_EOF err of
                   Some e \<Rightarrow> Inl e
                 | None \<Rightarrow>
                     if is_xz then
                       (case decode w Xz (rest b2) of
                          Inl e \<Rightarrow> Inl e
                        | Inr s \<Rightarrow> Inr (NewReaderSize s, None))
                     else
                       (case IsZst b2 of ((is_zst, err), b3) \<Rightarrow>
                         (case not_EOF err of
                            Some e \<Rightarrow> Inl e
                          | None \<Rightarrow>
                              if is_zst then
                                (case decode w Zstd (rest b3) of
                                   Inl e \<Rightarrow> Inl e
                                 | Inr s \<Rightarrow> Inr (NewReaderSize s, None))
                              else Inr (b3, None)))))))"

text \<open>Lines 190 to 198 of \<^verbatim>\<open>Buf\<close>: the byte-order mark.\<close>

definition Buf_bom :: "bufio_Reader \<Rightarrow> error + bufio_Reader" where
  "Buf_bom b =
     (case ReadRune b of
        (Inl err, b1) \<Rightarrow> Inl ErrNoContent
      | (Inr (t, n), b1) \<Rightarrow>
          if t \<noteq> 0xFEFF then Inr (snd (UnreadRune b1)) else Inr b1)"

definition Buf :: "world \<Rightarrow> source \<Rightarrow> error + Reader" where
  "Buf w r =
     (case Buf_sniff w (NewReaderSize (content r)) of
        Inl e \<Rightarrow> Inl e
      | Inr (b, rdr_var) \<Rightarrow>
          (case Buf_bom b of
             Inl e \<Rightarrow> Inl e
           | Inr b' \<Rightarrow> Inr \<lparr>buffered = b', rdr = r, gz = rdr_var\<rparr>))"

subsection \<open>Strings\<close>

text \<open>
  \<^verbatim>\<open>strings.Split(s, sep)\<close> for a separator of one byte: the pieces of \<open>s\<close> between
  the separators, always at least one piece. \<^verbatim>\<open>strings.HasPrefix\<close> and
  \<^verbatim>\<open>strings.HasSuffix\<close> compare bytes.
\<close>

fun Split :: "string \<Rightarrow> char \<Rightarrow> string list" where
  "Split [] sep = [[]]"
| "Split (c # s) sep =
     (if c = sep then [] # Split s sep
      else (case Split s sep of [] \<Rightarrow> [[c]] | t # ts \<Rightarrow> (c # t) # ts))"

definition HasPrefix :: "string \<Rightarrow> string \<Rightarrow> bool" where
  "HasPrefix s p = (take (length p) s = p)"

definition HasSuffix :: "string \<Rightarrow> string \<Rightarrow> bool" where
  "HasSuffix s p = (length p \<le> length s \<and> drop (length s - length p) s = p)"

subsection \<open>Resolving a descriptor to a source\<close>

definition IsStdin :: "world \<Rightarrow> bool" where
  "IsStdin w = (case stdin_stat w of Inl err \<Rightarrow> False | Inr char_device \<Rightarrow> \<not> char_device)"

definition ExpandUser :: "world \<Rightarrow> string \<Rightarrow> error + string" where
  "ExpandUser w path =
     (if length path = 0 \<or> path ! 0 \<noteq> CHR ''~'' then Inr path
      else
        let u = (if length path = 1 \<or> path ! 1 = CHR ''/'' then current_user w
                 else let name = hd (Split (drop 1 path) CHR ''/'') in lookup_user w name)
        in case u of
             Inl err \<Rightarrow> Inl err
           | Inr home \<Rightarrow> Inr (home @ ''/'' @ drop 1 path))"

text \<open>
  A path that is not there lies below a file when the nearest path above it that is
  there names a file. The walk upwards goes by \<open>filepath_Dir\<close> and stops at a path
  that is its own parent; the second argument bounds the number of steps by the length
  of the path.
\<close>

fun below_file :: "world \<Rightarrow> string \<Rightarrow> string \<Rightarrow> bool" where
  "below_file w [] p = False"
| "below_file w (c # fuel) p =
     (let d = filepath_Dir w p in
      if d = p then False
      else (case fs w d of
              Some (File b m) \<Rightarrow> True
            | Some Directory \<Rightarrow> False
            | None \<Rightarrow> below_file w fuel d))"

text \<open>
  \<^verbatim>\<open>os.Stat\<close> and \<^verbatim>\<open>os.Open\<close>. A path that is not there gives \<open>ENOENT\<close>, or
  \<open>ENOTDIR\<close> when it lies below a file. Opening for reading needs the owner's read bit
  (octal 400, that is 256); a directory opens, and every read from it fails.
\<close>

definition os_Stat :: "world \<Rightarrow> string \<Rightarrow> error + node" where
  "os_Stat w f =
     (case fs w f of
        None \<Rightarrow> Inl (if below_file w f f then ENOTDIR else ENOENT)
      | Some n \<Rightarrow> Inr n)"

definition IsDir :: "node \<Rightarrow> bool" where
  "IsDir fi = (case fi of Directory \<Rightarrow> True | File c m \<Rightarrow> False)"

definition os_Open :: "world \<Rightarrow> string \<Rightarrow> error + source" where
  "os_Open w f =
     (case os_Stat w f of
        Inl err \<Rightarrow> Inl err
      | Inr Directory \<Rightarrow>
          Inr \<lparr>content = \<lparr>bytes = [], final = External ''is a directory''\<rparr>, closer = Some (FileH f)\<rparr>
      | Inr (File c m) \<Rightarrow>
          if has_bit m 256
          then Inr \<lparr>content = \<lparr>bytes = c, final = EOF\<rparr>, closer = Some (FileH f)\<rparr>
          else Inl (External ''permission denied''))"

definition XReader :: "world \<Rightarrow> string \<Rightarrow> error + source" where
  "XReader w f =
     (if HasPrefix f ''http://'' \<or> HasPrefix f ''https://'' then
        (case http_Get w f of
           Inl err \<Rightarrow> Inl err
         | Inr (code, status, body) \<Rightarrow>
             if code \<noteq> 200 then Inl (HttpStatus f status)
             else Inr \<lparr>content = body, closer = Some (HttpBody f)\<rparr>)
      else
        case ExpandUser w f of
          Inl err \<Rightarrow> Inl err
        | Inr f' \<Rightarrow>
            (case os_Stat w f' of
               Inl err \<Rightarrow> Inl err
             | Inr fi \<Rightarrow> if IsDir fi then Inl ErrDirNotSupported else os_Open w f'))"

text \<open>
  What a call does: it returns, or it panics (a run-time error of Go, here the index
  expression \<^verbatim>\<open>f[0]\<close> on a string of length 0).
\<close>

datatype 'a outcome = Returned 'a | Panic string

definition Ropen :: "world \<Rightarrow> string \<Rightarrow> (error + Reader) outcome \<times> world" where
  "Ropen w f =
     (if f = ''-'' then
        (if \<not> IsStdin w then (Returned (Inl StdinNotDetected), w)
         else (Returned (Buf w \<lparr>content = stdin w, closer = Some Stdin\<rparr>), w))
      else if \<not> 0 < length f then (Panic ''index out of range [0] with length 0'', w)
      else if f ! 0 = CHR ''|'' then
        (let cmdStrs = Split (drop 1 f) CHR '' '';
             name = cmdStrs ! 0;
             args = (if length cmdStrs = 2 then drop 1 cmdStrs else [])
         in case stdout_pipe w name args of
              Some err \<Rightarrow> (Returned (Inl err), w)
            | None \<Rightarrow>
                (case start w name args of
                   Inl err \<Rightarrow> (Returned (Inl err), w)
                 | Inr out \<Rightarrow>
                     (Returned (Buf w \<lparr>content = out, closer = Some (CmdStdout name args)\<rparr>),
                      record_event w (Started name args))))
      else
        (case XReader w f of
           Inl err \<Rightarrow> (Returned (Inl err), w)
         | Inr r \<Rightarrow> (Returned (Buf w r), w)))"

subsection \<open>Files opened for writing\<close>

text \<open>
  An \<^verbatim>\<open>*os.File\<close>: the handle it is, whether it was opened with write access, whether
  with \<^verbatim>\<open>O_APPEND\<close>, its offset, and whether it has been closed.
\<close>

record os_File =
  fd :: handle
  fd_write :: bool
  fd_append :: bool
  fd_pos :: nat
  fd_closed :: bool

definition File_Write :: "world \<Rightarrow> os_File \<Rightarrow> byte list \<Rightarrow> error option \<times> os_File \<times> world" where
  "File_Write w f p =
     (if fd_closed f then (Some (External ''file already closed''), f, w)
      else if \<not> fd_write f then (Some (External ''bad file descriptor''), f, w)
      else case fd f of
          Stdout \<Rightarrow> (None, f, w\<lparr>stdout := stdout w @ p\<rparr>)
        | FileH name \<Rightarrow>
            (case fs w name of
               Some (File c m) \<Rightarrow>
                 let pos = (if fd_append f then length c else fd_pos f);
                     c' = take pos c @ p @ drop (pos + length p) c
                 in (None, f\<lparr>fd_pos := pos + length p\<rparr>,
                     w\<lparr>fs := (fs w)(name \<mapsto> File c' m)\<rparr>)
             | _ \<Rightarrow> (Some (External ''no such file''), f, w))
        | _ \<Rightarrow> (Some (External ''not a file''), f, w))"

definition File_Close :: "world \<Rightarrow> os_File \<Rightarrow> error option \<times> os_File \<times> world" where
  "File_Close w f =
     (let (err, w') = close_handle w (fd f) in
      if fd_closed f then (Some (External ''file already closed''), f, w')
      else (err, f\<lparr>fd_closed := True\<rparr>, w'))"

text \<open>
  \<^verbatim>\<open>os.OpenFile(name, flag, perm)\<close> with the flag values of Linux: the access mode is
  \<open>flag mod 4\<close> (\<^verbatim>\<open>O_RDONLY = 0\<close>, \<^verbatim>\<open>O_WRONLY = 1\<close>, \<^verbatim>\<open>O_RDWR = 2\<close>),
  \<^verbatim>\<open>O_CREATE = 64\<close>, \<^verbatim>\<open>O_EXCL = 128\<close>, \<^verbatim>\<open>O_TRUNC = 512\<close>, \<^verbatim>\<open>O_APPEND = 1024\<close>. A
  missing file is created only with \<^verbatim>\<open>O_CREATE\<close>, only under a name that is not empty
  and only in an existing directory, with the permissions \<open>perm\<close> less the bits of
  \<open>umask\<close>; an existing file needs the owner's read bit (256) for read access and the
  owner's write bit (128) for write access.
\<close>

definition clear_umask :: "nat \<Rightarrow> nat \<Rightarrow> nat" where
  "clear_umask perm um =
     (\<Sum>i\<leftarrow>[0..<9]. if has_bit perm (2 ^ i) \<and> \<not> has_bit um (2 ^ i) then 2 ^ i else 0)"

definition os_OpenFile :: "world \<Rightarrow> string \<Rightarrow> nat \<Rightarrow> nat \<Rightarrow> (error + os_File) \<times> world" where
  "os_OpenFile w name flag perm =
     (let acc = flag mod 4;
          reads = (acc = 0 \<or> acc = 2);
          writes = (acc = 1 \<or> acc = 2);
          h = \<lparr>fd = FileH name, fd_write = writes, fd_append = has_bit flag 1024,
               fd_pos = 0, fd_closed = False\<rparr>
      in case os_Stat w name of
          Inl err \<Rightarrow>
            if err = ENOENT \<and> name \<noteq> [] \<and> has_bit flag 64
                \<and> fs w (filepath_Dir w name) = Some Directory
            then (Inr h, w\<lparr>fs := (fs w)(name \<mapsto> File [] (clear_umask perm (umask w)))\<rparr>)
            else (Inl err, w)
        | Inr Directory \<Rightarrow>
            if writes \<or> has_bit flag 64 then (Inl (External ''is a directory''), w)
            else (Inr h, w)
        | Inr (File c m) \<Rightarrow>
            if has_bit flag 64 \<and> has_bit flag 128 then (Inl (External ''file exists''), w)
            else if reads \<and> \<not> has_bit m 256 then (Inl (External ''permission denied''), w)
            else if writes \<and> \<not> has_bit m 128 then (Inl (External ''permission denied''), w)
            else if writes \<and> has_bit flag 512
              then (Inr h, w\<lparr>fs := (fs w)(name \<mapsto> File [] m)\<rparr>)
            else (Inr h, w))"

definition O_RDONLY :: nat where
  "O_RDONLY = 0"

text \<open>
  \<^verbatim>\<open>os.IsNotExist\<close> of the error of \<^verbatim>\<open>os.Stat\<close>, which holds of \<open>ENOENT\<close> and not of
  \<open>ENOTDIR\<close>, and \<^verbatim>\<open>os.MkdirAll\<close>, whose error \<^verbatim>\<open>WopenFile\<close> ignores: the directory
  is there afterwards unless something else has its name.
\<close>

definition IsNotExist :: "error + node \<Rightarrow> bool" where
  "IsNotExist st = (st = Inl ENOENT)"

definition os_MkdirAll :: "world \<Rightarrow> string \<Rightarrow> world" where
  "os_MkdirAll w dir =
     record_event
       (case fs w dir of None \<Rightarrow> w\<lparr>fs := (fs w)(dir \<mapsto> Directory)\<rparr> | Some n \<Rightarrow> w)
       (MkdirAll dir)"

subsection \<open>Encoders\<close>

text \<open>
  A \<^verbatim>\<open>*gzip.Writer\<close>, \<^verbatim>\<open>*xz.Writer\<close> or \<^verbatim>\<open>*zstd.Encoder\<close>: \<open>enc_pending\<close> is the
  input it holds in its own buffer, \<open>enc_emitted\<close> the input whose encoding it has
  handed to its sink. \<^verbatim>\<open>Write\<close> takes the bytes into the buffer, \<^verbatim>\<open>Flush\<close> (gzip and
  zstd have one, xz has none) empties the buffer towards the sink, \<^verbatim>\<open>Close\<close> does the
  same and ends the stream. The bytes of the encoding are those of \<open>encode\<close>; they are
  put into the sink when the encoder is closed.
\<close>

record encoder =
  enc_pending :: "byte list"
  enc_emitted :: "byte list"
  enc_closed :: bool

definition new_encoder :: encoder where
  "new_encoder = \<lparr>enc_pending = [], enc_emitted = [], enc_closed = False\<rparr>"

definition Encoder_Write :: "encoder \<Rightarrow> byte list \<Rightarrow> error option \<times> encoder" where
  "Encoder_Write e p =
     (if enc_closed e then (Some (External ''write to closed encoder''), e)
      else (None, e\<lparr>enc_pending := enc_pending e @ p\<rparr>))"

definition Encoder_Flush :: "world \<Rightarrow> format \<Rightarrow> encoder \<Rightarrow> error option \<times> encoder \<times> world" where
  "Encoder_Flush w fmt e =
     (let (err, w') = flush_handle w (EncoderH fmt) in
      if enc_closed e then (Some (External ''flush of closed encoder''), e, w')
      else case err of
          Some x \<Rightarrow> (Some x, e, w')
        | None \<Rightarrow> (None, e\<lparr>enc_emitted := enc_emitted e @ enc_pending e, enc_pending := []\<rparr>, w'))"

definition Encoder_Close ::
  "world \<Rightarrow> format \<Rightarrow> encoder \<Rightarrow> os_File \<Rightarrow> error option \<times> encoder \<times> os_File \<times> world" where
  "Encoder_Close w fmt e f =
     (let (err, w') = close_handle w (EncoderH fmt) in
      if enc_closed e then (None, e, f, w')
      else case err of
          Some x \<Rightarrow> (Some x, e\<lparr>enc_closed := True\<rparr>, f, w')
        | None \<Rightarrow>
            let all_input = enc_emitted e @ enc_pending e;
                (werr, f', w'') = File_Write w' f (encode w' fmt all_input)
            in (werr, e\<lparr>enc_emitted := all_input, enc_pending := [], enc_closed := True\<rparr>, f', w''))"

subsection \<open>Writers\<close>

text \<open>
  A \<^verbatim>\<open>*bufio.Writer\<close>: the bytes in its buffer, its sticky error, and the writer it
  was made on (\<open>None\<close> for the file itself, \<open>Some fmt\<close> for the encoder of \<open>fmt\<close>).
\<close>

record bufio_Writer =
  wr_buf :: "byte list"
  wr_err :: "error option"
  wr :: "format option"

definition NewWriterSize :: "format option \<Rightarrow> bufio_Writer" where
  "NewWriterSize target = \<lparr>wr_buf = [], wr_err = None, wr = target\<rparr>"

text \<open>
  \<^verbatim>\<open>type Writer struct { *bufio.Writer; wtr *os.File; gz *gzip.Writer; xw *xz.Writer;
  zw *zstd.Encoder }\<close>. The field \<^verbatim>\<open>gz\<close> is \<open>wgz\<close> here (\<open>gz\<close> is the reader's field);
  a nil pointer is \<open>None\<close>.
\<close>

record Writer =
  bw :: bufio_Writer
  wtr :: os_File
  wgz :: "encoder option"
  xw :: "encoder option"
  zw :: "encoder option"

text \<open>
  \<^verbatim>\<open>Write\<close> of the writer the \<^verbatim>\<open>bufio.Writer\<close> was made on. An encoder's pointer that
  is nil (its constructor failed) cannot take bytes.
\<close>

definition encoder_of :: "Writer \<Rightarrow> format \<Rightarrow> encoder option" where
  "encoder_of W fmt = (case fmt of Gzip \<Rightarrow> wgz W | Xz \<Rightarrow> xw W | Zstd \<Rightarrow> zw W)"

definition set_encoder :: "Writer \<Rightarrow> format \<Rightarrow> encoder \<Rightarrow> Writer" where
  "set_encoder W fmt e =
     (case fmt of
        Gzip \<Rightarrow> W\<lparr>wgz := Some e\<rparr>
      | Xz \<Rightarrow> W\<lparr>xw := Some e\<rparr>
      | Zstd \<Rightarrow> W\<lparr>zw := Some e\<rparr>)"

definition lower_Write :: "world \<Rightarrow> Writer \<Rightarrow> byte list \<Rightarrow> error option \<times> Writer \<times> world" where
  "lower_Write w W p =
     (case wr (bw W) of
        None \<Rightarrow> (let (err, f, w') = File_Write w (wtr W) p in (err, W\<lparr>wtr := f\<rparr>, w'))
      | Some fmt \<Rightarrow>
          (case encoder_of W fmt of
             None \<Rightarrow> (Some (External ''nil encoder''), W, w)
           | Some e \<Rightarrow> (let (err, e') = Encoder_Write e p in (err, set_encoder W fmt e', w))))"

text \<open>
  \<^verbatim>\<open>bufio.Writer.Flush\<close>: nothing after an earlier error; otherwise the buffer goes to
  the writer below, and an error of that write stays in the \<^verbatim>\<open>bufio.Writer\<close>.
\<close>

definition bufio_Flush :: "world \<Rightarrow> Writer \<Rightarrow> error option \<times> Writer \<times> world" where
  "bufio_Flush w W =
     (let w0 = record_event w (Flushed BufioW) in
      case wr_err (bw W) of
        Some err \<Rightarrow> (Some err, W, w0)
      | None \<Rightarrow>
          if wr_buf (bw W) = [] then (None, W, w0)
          else let (err, W', w') = lower_Write w0 W (wr_buf (bw W)) in
            (case err of
               Some x \<Rightarrow> (Some x, W'\<lparr>bw := (bw W')\<lparr>wr_err := Some x\<rparr>\<rparr>, w')
             | None \<Rightarrow> (None, W'\<lparr>bw := (bw W')\<lparr>wr_buf := []\<rparr>\<rparr>, w')))"

definition Available :: "bufio_Writer \<Rightarrow> nat" where
  "Available b = bufSize - length (wr_buf b)"

definition Buffered :: "bufio_Writer \<Rightarrow> nat" where
  "Buffered b = length (wr_buf b)"

lemma bufio_Flush_drained:
  assumes "bufio_Flush w W = (err, W', w')" and "wr_err (bw W) = None"
  shows "wr_err (bw W') \<noteq> None \<or> wr_buf (bw W') = []"
  using assms
  by (auto simp: bufio_Flush_def Let_def split: if_splits prod.splits option.splits)

text \<open>
  \<^verbatim>\<open>bufio.Writer.Write\<close>, the \<^verbatim>\<open>Write\<close> of a \<^verbatim>\<open>Writer\<close>: while \<open>p\<close> does not fit into
  the buffer, either the buffer is empty and \<open>p\<close> goes to the writer below at once, or
  the buffer is filled from \<open>p\<close> and flushed; what is left of \<open>p\<close> is put in the buffer.
\<close>

function bufio_Write :: "world \<Rightarrow> Writer \<Rightarrow> byte list \<Rightarrow> error option \<times> Writer \<times> world" where
  "bufio_Write w W p =
     (if length p > Available (bw W) \<and> wr_err (bw W) = None then
        (if Buffered (bw W) = 0 then
           (case lower_Write w W p of
              (Some x, W', w') \<Rightarrow> (Some x, W'\<lparr>bw := (bw W')\<lparr>wr_err := Some x\<rparr>\<rparr>, w')
            | (None, W', w') \<Rightarrow> (None, W', w'))
         else
           (let n = Available (bw W);
                W1 = W\<lparr>bw := (bw W)\<lparr>wr_buf := wr_buf (bw W) @ take n p\<rparr>\<rparr>
            in case bufio_Flush w W1 of (err, W2, w2) \<Rightarrow> bufio_Write w2 W2 (drop n p)))
      else
        (case wr_err (bw W) of
           Some x \<Rightarrow> (Some x, W, w)
         | None \<Rightarrow> (None, W\<lparr>bw := (bw W)\<lparr>wr_buf := wr_buf (bw W) @ p\<rparr>\<rparr>, w)))"
  by pat_completeness auto
termination
proof (relation "measure (\<lambda>(w, W, p).
         if wr_err (bw W) \<noteq> None then 0
         else 2 * length p + (if wr_buf (bw W) = [] then 0 else 1) + 1)")
  show "wf (measure (\<lambda>(w, W, p).
         if wr_err (bw W) \<noteq> None then 0
         else 2 * length p + (if wr_buf (bw W) = [] then 0 else 1) + 1))"
    by simp
next
  fix w W p n W1 r err r' W2 w2
  assume a: "length p > Available (bw W) \<and> wr_err (bw W) = None" "Buffered (bw W) \<noteq> 0"
    and n: "n = Available (bw W)"
    and W1: "W1 = W\<lparr>bw := (bw W)\<lparr>wr_buf := wr_buf (bw W) @ take n p\<rparr>\<rparr>"
    and r: "(err, r') = bufio_Flush w W1" "(W2, w2) = r'"
  have "bufio_Flush w W1 = (err, W2, w2)" using r by simp
  moreover have "wr_err (bw W1) = None" using a W1 by simp
  ultimately have "wr_err (bw W2) \<noteq> None \<or> wr_buf (bw W2) = []"
    by (rule bufio_Flush_drained)
  moreover have "wr_buf (bw W) \<noteq> []" using a(2) by (simp add: Buffered_def)
  ultimately show "((w2, W2, drop n p), (w, W, p)) \<in> measure (\<lambda>(w, W, p).
         if wr_err (bw W) \<noteq> None then 0
         else 2 * length p + (if wr_buf (bw W) = [] then 0 else 1) + 1)"
    using a(1) by auto
qed

declare bufio_Write.simps [simp del]

subsection \<open>Flush and Close of a writer\<close>

definition flush_encoder :: "world \<Rightarrow> Writer \<Rightarrow> format \<Rightarrow> Writer \<times> world" where
  "flush_encoder w W fmt =
     (case encoder_of W fmt of
        None \<Rightarrow> (W, w)
      | Some e \<Rightarrow> (let (err, e', w') = Encoder_Flush w fmt e in (set_encoder W fmt e', w')))"

definition close_encoder :: "world \<Rightarrow> Writer \<Rightarrow> format \<Rightarrow> Writer \<times> world" where
  "close_encoder w W fmt =
     (case encoder_of W fmt of
        None \<Rightarrow> (W, w)
      | Some e \<Rightarrow>
          (let (err, e', f', w') = Encoder_Close w fmt e (wtr W)
           in ((set_encoder W fmt e')\<lparr>wtr := f'\<rparr>, w')))"

definition Writer_Flush :: "world \<Rightarrow> Writer \<Rightarrow> Writer \<times> world" where
  "Writer_Flush w W =
     (let (err, W1, w1) = bufio_Flush w W;
          (W2, w2) = flush_encoder w1 W1 Gzip;
          (W3, w3) = flush_encoder w2 W2 Zstd
      in (W3, w3))"

definition Writer_Close :: "world \<Rightarrow> Writer \<Rightarrow> error option \<times> Writer \<times> world" where
  "Writer_Close w W =
     (let (W1, w1) = Writer_Flush w W;
          (W2, w2) = close_encoder w1 W1 Gzip;
          (W3, w3) = close_encoder w2 W2 Xz;
          (W4, w4) = close_encoder w3 W3 Zstd;
          (err, f', w5) = File_Close w4 (wtr W4)
      in (None, W4\<lparr>wtr := f'\<rparr>, w5))"

subsection \<open>Opening for writing\<close>

text \<open>
  \<^verbatim>\<open>strings.ToLower\<close> on the bytes of the ASCII letters, which is all the three
  suffixes can match.
\<close>

definition lower_char :: "char \<Rightarrow> char" where
  "lower_char c =
     (let n = (of_char c :: nat) in if 65 \<le> n \<and> n \<le> 90 then char_of (n + 32) else c)"

definition ToLower :: "string \<Rightarrow> string" where
  "ToLower s = map lower_char s"

definition os_Stdout :: os_File where
  "os_Stdout = \<lparr>fd = Stdout, fd_write = True, fd_append = False, fd_pos = 0, fd_closed = False\<rparr>"

text \<open>
  \<^verbatim>\<open>WopenFile\<close> returns a pair of a pointer and an error; the xz and zstd branches
  return the writer together with the error of the encoder's constructor, and the
  encoder's pointer is nil when there is an error.
\<close>

definition new_encoder_opt :: "world \<Rightarrow> format \<Rightarrow> encoder option" where
  "new_encoder_opt w fmt = (case new_encoder_error w fmt of None \<Rightarrow> Some new_encoder | Some err \<Rightarrow> None)"

definition WopenFile ::
  "world \<Rightarrow> string \<Rightarrow> nat \<Rightarrow> nat \<Rightarrow> (Writer option \<times> error option) \<times> world" where
  "WopenFile w f flag perm =
     (let opened =
        (if f = ''-'' then (Inr os_Stdout, w)
         else
           let dir = filepath_Dir w f;
               st = os_Stat w dir
           in if (case st of Inr fi \<Rightarrow> \<not> IsDir fi | Inl err \<Rightarrow> False)
              then (Inl (NonDirectoryParent dir), w)
              else
                let w1 = (if IsNotExist st then os_MkdirAll w dir else w)
                in os_OpenFile w1 f flag perm)
      in case opened of
          (Inl err, w') \<Rightarrow> ((None, Some err), w')
        | (Inr file, w') \<Rightarrow>
            let f2 = ToLower f in
            if HasSuffix f2 ''.gz'' then
              ((Some \<lparr>bw = NewWriterSize (Some Gzip), wtr = file,
                      wgz = Some new_encoder, xw = None, zw = None\<rparr>, None), w')
            else if HasSuffix f2 ''.xz'' then
              ((Some \<lparr>bw = NewWriterSize (Some Xz), wtr = file,
                      wgz = None, xw = new_encoder_opt w' Xz, zw = None\<rparr>,
                new_encoder_error w' Xz), w')
            else if HasSuffix f2 ''.zst'' then
              ((Some \<lparr>bw = NewWriterSize (Some Zstd), wtr = file,
                      wgz = None, xw = None, zw = new_encoder_opt w' Zstd\<rparr>,
                new_encoder_error w' Zstd), w')
            else
              ((Some \<lparr>bw = NewWriterSize None, wtr = file,
                      wgz = None, xw = None, zw = None\<rparr>, None), w'))"

definition Wopen :: "world \<Rightarrow> string \<Rightarrow> (Writer option \<times> error option) \<times> world" where
  "Wopen w f = WopenFile w f O_RDONLY 0"

subsection \<open>An example world\<close>

text \<open>
  A world to run the operations in: a codec that stores its input after the format's
  magic bytes and two zero bytes, a file system with the directories \<^verbatim>\<open>.\<close> and
  \<^verbatim>\<open>/tmp\<close> and one plain file, the users alice (current) and bob, no network, and
  commands that all print the same line. Nothing fails on close or flush.
\<close>

definition magic_of :: "format \<Rightarrow> byte list" where
  "magic_of fmt = (case fmt of Gzip \<Rightarrow> gzip_magic | Xz \<Rightarrow> xz_magic | Zstd \<Rightarrow> zst_magic)"

definition store_encode :: "format \<Rightarrow> byte list \<Rightarrow> byte list" where
  "store_encode fmt bs = magic_of fmt @ [0, 0] @ bs"

definition store_decode :: "format \<Rightarrow> stream \<Rightarrow> error + stream" where
  "store_decode fmt s =
     (let n = length (magic_of fmt) + 2 in
      if take n (bytes s) = magic_of fmt @ [0, 0]
      then Inr \<lparr>bytes = drop n (bytes s), final = final s\<rparr>
      else Inl (External ''invalid header''))"

definition example_Dir :: "string \<Rightarrow> string" where
  "example_Dir f =
     (let d = rev (drop 1 (dropWhile (\<lambda>c. c \<noteq> CHR ''/'') (rev f)))
      in if CHR ''/'' \<notin> set f then ''.'' else if d = [] then ''/'' else d)"

definition example_world :: world where
  "example_world =
     \<lparr>decode = store_decode,
      encode = store_encode,
      new_encoder_error = (\<lambda>fmt. None),
      fs = (\<lambda>p. if p = ''.'' \<or> p = ''/tmp'' then Some Directory
                else if p = ''/tmp/plain.txt'' then Some (File [0x61, 0x62, 0x63] 420)
                else None),
      umask = 18,
      filepath_Dir = example_Dir,
      current_user = Inr ''/home/alice'',
      lookup_user = (\<lambda>name. if name = ''bob'' then Inr ''/home/bob''
                              else Inl (External ''user: unknown user'')),
      stdin_stat = Inr False,
      stdin = \<lparr>bytes = [], final = EOF\<rparr>,
      stdout = [],
      http_Get = (\<lambda>url. Inl (External ''no route to host'')),
      stdout_pipe = (\<lambda>name args. None),
      start = (\<lambda>name args. if name = [] then Inl (External ''exec: no command'')
                             else Inr \<lparr>bytes = [0x6f, 0x75, 0x74, 0x70, 0x75, 0x74, 0x0a], final = EOF\<rparr>),
      close_error = (\<lambda>h. None),
      flush_error = (\<lambda>h. None),
      log = []\<rparr>"

text \<open>The same world, where every close fails.\<close>

definition failing_world :: world where
  "failing_world = example_world\<lparr>close_error := (\<lambda>h. Some (External ''close failed''))\<rparr>"

subsection \<open>Example inputs and scenarios\<close>

text \<open>
  Sources for \<^verbatim>\<open>Buf\<close>: a plain stream that starts with a byte-order mark, an empty
  stream, a plain stream of four bytes that starts with a byte-order mark, a plain
  stream of three bytes, and files in the formats of the example codec.
\<close>

definition bom_example :: source where
  "bom_example =
     \<lparr>content = \<lparr>bytes = [0xEF, 0xBB, 0xBF, 0x68, 0x69, 0x21, 0x0a], final = EOF\<rparr>,
      closer = None\<rparr>"

definition empty_example :: source where
  "empty_example = \<lparr>content = \<lparr>bytes = [], final = EOF\<rparr>, closer = None\<rparr>"

definition short_bom_example :: source where
  "short_bom_example =
     \<lparr>content = \<lparr>bytes = [0xEF, 0xBB, 0xBF, 0x61], final = EOF\<rparr>, closer = None\<rparr>"

definition short_example :: source where
  "short_example = \<lparr>content = \<lparr>bytes = [0x61, 0x62, 0x63], final = EOF\<rparr>, closer = None\<rparr>"

definition encoded_example :: "format \<Rightarrow> string \<Rightarrow> source" where
  "encoded_example fmt name =
     \<lparr>content = \<lparr>bytes = store_encode fmt [0x68, 0x69], final = EOF\<rparr>,
      closer = Some (FileH name)\<rparr>"

text \<open>Opening a source and closing the reader at once: the error, or the calls made.\<close>

definition open_then_close :: "world \<Rightarrow> source \<Rightarrow> error + event list" where
  "open_then_close w s =
     (case Buf w s of
        Inl e \<Rightarrow> Inl e
      | Inr rd \<Rightarrow> Inr (log (snd (Reader_Close w rd))))"

text \<open>The example world with one more file, a gzip file of the example codec.\<close>

definition stocked_world :: world where
  "stocked_world =
     example_world\<lparr>fs := (fs example_world)
       (''/tmp/old.gz'' \<mapsto> File (store_encode Gzip [0x6f, 0x6c, 0x64]) 420)\<rparr>"

subsection \<open>Writing a file and reading it back\<close>

text \<open>
  The format \<^verbatim>\<open>WopenFile\<close> chooses for a name, by its chain of suffix tests, and the
  file handle \<^verbatim>\<open>os.OpenFile\<close> returns for write-only access without \<^verbatim>\<open>O_APPEND\<close>.
\<close>

definition format_of_name :: "string \<Rightarrow> format option" where
  "format_of_name f =
     (let f2 = ToLower f in
      if HasSuffix f2 ''.gz'' then Some Gzip
      else if HasSuffix f2 ''.xz'' then Some Xz
      else if HasSuffix f2 ''.zst'' then Some Zstd
      else None)"

definition write_flags :: nat where
  "write_flags = 1 + 64 + 512"

text \<open>
  A caller that opens \<open>f\<close> with \<^verbatim>\<open>WopenFile\<close>, stops on an error, and writes \<open>B\<close> with
  one \<^verbatim>\<open>Write\<close>: the error, or the writer and the world after the write.
\<close>

definition write_all :: "world \<Rightarrow> string \<Rightarrow> nat \<Rightarrow> nat \<Rightarrow> byte list \<Rightarrow> error + Writer \<times> world" where
  "write_all w f flag perm B =
     (case WopenFile w f flag perm of
        ((wo, Some e), w1) \<Rightarrow> Inl e
      | ((None, None), w1) \<Rightarrow> Inl (External ''no writer'')
      | ((Some W, None), w1) \<Rightarrow>
          (case bufio_Write w1 W B of
             (Some e, W2, w2) \<Rightarrow> Inl e
           | (None, W2, w2) \<Rightarrow> Inr (W2, w2)))"

text \<open>
  The same caller, who then calls \<^verbatim>\<open>Flush\<close>: the bytes left in the buffer, the encoder
  of the name's format, and the calls made from the flush on.
\<close>

definition write_then_flush ::
  "world \<Rightarrow> string \<Rightarrow> nat \<Rightarrow> nat \<Rightarrow> byte list \<Rightarrow> error + byte list \<times> encoder option \<times> event list" where
  "write_then_flush w f flag perm B =
     (case write_all w f flag perm B of
        Inl e \<Rightarrow> Inl e
      | Inr (W, w2) \<Rightarrow>
          (case Writer_Flush (w2\<lparr>log := []\<rparr>) W of
             (W3, w3) \<Rightarrow>
               Inr (wr_buf (bw W3),
                    (case format_of_name f of None \<Rightarrow> None | Some fmt \<Rightarrow> encoder_of W3 fmt),
                    log w3)))"

text \<open>
  The same caller, who instead calls \<^verbatim>\<open>Close\<close>: what \<^verbatim>\<open>Close\<close> returned and the world
  after it, with the calls made from the close on.
\<close>

definition write_then_close ::
  "world \<Rightarrow> string \<Rightarrow> nat \<Rightarrow> nat \<Rightarrow> byte list \<Rightarrow> error + error option \<times> world" where
  "write_then_close w f flag perm B =
     (case write_all w f flag perm B of
        Inl e \<Rightarrow> Inl e
      | Inr (W, w2) \<Rightarrow>
          (case Writer_Close (w2\<lparr>log := []\<rparr>) W of (err, W3, w3) \<Rightarrow> Inr (err, w3)))"

text \<open>Opening \<open>f\<close> with \<^verbatim>\<open>Ropen\<close> and reading to the end: the bytes the reader delivers.\<close>

definition read_all :: "world \<Rightarrow> string \<Rightarrow> (error + byte list) outcome" where
  "read_all w f =
     (case fst (Ropen w f) of
        Panic m \<Rightarrow> Panic m
      | Returned (Inl e) \<Rightarrow> Returned (Inl e)
      | Returned (Inr rd) \<Rightarrow> Returned (Inr (unread (buffered rd))))"

definition write_then_read ::
  "world \<Rightarrow> string \<Rightarrow> nat \<Rightarrow> nat \<Rightarrow> byte list \<Rightarrow> (error + byte list) outcome" where
  "write_then_read w f flag perm B =
     (case write_then_close w f flag perm B of
        Inl e \<Rightarrow> Returned (Inl e)
      | Inr (err, w3) \<Rightarrow> read_all w3 f)"

text \<open>
  What the round trip needs of a codec at the input \<open>B\<close>: the encoding starts with the
  format's signature, is at least as long as the longest signature, and decodes to \<open>B\<close>.
\<close>

definition encodes_well :: "world \<Rightarrow> format \<Rightarrow> byte list \<Rightarrow> bool" where
  "encodes_well w fmt B =
     (take (length (magic_of fmt)) (encode w fmt B) = magic_of fmt
      \<and> 6 \<le> length (encode w fmt B)
      \<and> decode w fmt \<lparr>bytes = encode w fmt B, final = EOF\<rparr> = Inr \<lparr>bytes = B, final = EOF\<rparr>)"

text \<open>
  The state of a writer that \<^verbatim>\<open>WopenFile\<close> made for the format \<open>fmt\<close> and that has met
  no error: the bytes in the buffer, and the bytes the encoder holds and has emitted.
\<close>

definition enc_state :: "Writer \<Rightarrow> format \<Rightarrow> byte list \<Rightarrow> byte list \<Rightarrow> byte list \<Rightarrow> bool" where
  "enc_state W fmt buf pend emit =
     (bw W = \<lparr>wr_buf = buf, wr_err = None, wr = Some fmt\<rparr>
      \<and> (\<forall>fmt'. encoder_of W fmt' =
            (if fmt' = fmt
             then Some \<lparr>enc_pending = pend, enc_emitted = emit, enc_closed = False\<rparr>
             else None)))"

text \<open>The operations change the file system, standard output and the log, nothing else.\<close>

definition frame :: "world \<Rightarrow> world \<Rightarrow> bool" where
  "frame w w' =
     (decode w' = decode w \<and> encode w' = encode w
      \<and> new_encoder_error w' = new_encoder_error w
      \<and> umask w' = umask w \<and> filepath_Dir w' = filepath_Dir w
      \<and> current_user w' = current_user w \<and> lookup_user w' = lookup_user w
      \<and> stdin_stat w' = stdin_stat w \<and> stdin w' = stdin w
      \<and> http_Get w' = http_Get w
      \<and> stdout_pipe w' = stdout_pipe w \<and> start w' = start w
      \<and> close_error w' = close_error w \<and> flush_error w' = flush_error w)"

text \<open>Which encoders a writer has, and which file: \<^verbatim>\<open>Flush\<close> and \<^verbatim>\<open>Close\<close> go by these.\<close>

definition shape :: "Writer \<Rightarrow> bool \<times> bool \<times> bool \<times> handle" where
  "shape W = (wgz W = None, xw W = None, zw W = None, fd (wtr W))"

text \<open>What \<^verbatim>\<open>Close\<close> returned after opening and writing, and the calls it made.\<close>

definition close_report ::
  "world \<Rightarrow> string \<Rightarrow> nat \<Rightarrow> nat \<Rightarrow> byte list \<Rightarrow> error + error option \<times> event list" where
  "close_report w f flag perm B =
     (case write_then_close w f flag perm B of
        Inl e \<Rightarrow> Inl e
      | Inr (err, w3) \<Rightarrow> Inr (err, log w3))"

text \<open>
  A descriptor that \<^verbatim>\<open>Ropen\<close> takes for a path of the file system and leaves as it is:
  not \<^verbatim>\<open>-\<close>, not a command, not a URL, not home-relative.
\<close>

definition plain_path :: "string \<Rightarrow> bool" where
  "plain_path f =
     (f \<noteq> [] \<and> f \<noteq> ''-'' \<and> f ! 0 \<noteq> CHR ''|'' \<and> f ! 0 \<noteq> CHR ''~''
      \<and> \<not> HasPrefix f ''http://'' \<and> \<not> HasPrefix f ''https://'')"

text \<open>
  What the file \<open>f\<close> is when \<^verbatim>\<open>WopenFile\<close> has opened it with \<open>flag\<close> and \<open>perm\<close>:
  whether the encoder starts on an empty file (\<open>f\<close> is new, is empty, or is truncated
  by \<^verbatim>\<open>O_TRUNC\<close>), and whether the owner may read it (the permissions of the file that
  is there, or \<open>perm\<close> less the bits of \<open>umask\<close> for a new file, have the bit 256).
\<close>

definition starts_empty :: "world \<Rightarrow> string \<Rightarrow> nat \<Rightarrow> bool" where
  "starts_empty w f flag =
     (case fs w f of
        None \<Rightarrow> True
      | Some Directory \<Rightarrow> False
      | Some (File c m) \<Rightarrow> c = [] \<or> has_bit flag 512)"

definition owner_reads :: "world \<Rightarrow> string \<Rightarrow> nat \<Rightarrow> bool" where
  "owner_reads w f perm =
     (case fs w f of
        None \<Rightarrow> has_bit (clear_umask perm (umask w)) 256
      | Some Directory \<Rightarrow> False
      | Some (File c m) \<Rightarrow> has_bit m 256)"

text \<open>A byte sequence without the byte-order mark it may start with.\<close>

definition strip_bom :: "byte list \<Rightarrow> byte list" where
  "strip_bom B = (if take 3 B = [0xEF, 0xBB, 0xBF] then drop 3 B else B)"

text \<open>A gzip writer on a file, with one byte in its buffer.\<close>

definition example_writer :: Writer where
  "example_writer =
     \<lparr>bw = \<lparr>wr_buf = [0x61], wr_err = None, wr = Some Gzip\<rparr>,
      wtr = \<lparr>fd = FileH ''/tmp/a.gz'', fd_write = True, fd_append = False, fd_pos = 0,
             fd_closed = False\<rparr>,
      wgz = Some new_encoder, xw = None, zw = None\<rparr>"

section \<open>Properties\<close>

subsection \<open>Decoding the first rune\<close>

lemma mod_range:
  fixes u :: nat
  assumes "q * m \<le> u" "u < q * m + m"
  shows "u mod m = u - q * m"
proof -
  have "u div m = q" using assms by (intro div_nat_eqI) (simp_all add: mult.commute)
  then show ?thesis using div_mult_mod_eq[of u m] by simp
qed

lemma three_byte_FEFF:
  fixes x y z :: nat
  assumes "x < 16" "y < 64" "z < 64" "x * 4096 + y * 64 + z = 65279"
  shows "x = 15 \<and> y = 59 \<and> z = 63"
proof -
  have x: "x = 15" using assms by linarith
  have y: "y = 59" using assms x by linarith
  show ?thesis using assms x y by simp
qed

lemma first_byte_cases:
  assumes "first_byte p0 = Some (sz, lo, hi)"
  shows "sz = 2 \<and> 0xC2 \<le> p0 \<and> p0 \<le> 0xDF
       \<or> sz = 3 \<and> 0xE0 \<le> p0 \<and> p0 \<le> 0xEF \<and> 0x80 \<le> lo \<and> hi \<le> 0xBF
       \<or> sz = 4 \<and> p0 = 0xF0 \<and> lo = 0x90 \<and> hi = 0xBF
       \<or> sz = 4 \<and> 0xF1 \<le> p0 \<and> p0 \<le> 0xF4"
  using assms by (auto simp: first_byte_def word_le_nat_alt word_unat_eq_iff split: if_splits)

lemma bom3:
  fixes p0 b1 b2 :: byte
  assumes "0xE0 \<le> p0" "p0 \<le> 0xEF" "0x80 \<le> b1" "b1 \<le> 0xBF" "continuation b2"
   and "unat p0 mod 16 * 4096 + unat b1 mod 64 * 64 + unat b2 mod 64 = 0xFEFF"
  shows "p0 = 0xEF \<and> b1 = 0xBB \<and> b2 = 0xBF"
proof -
  have a: "14 * 16 \<le> unat p0" "unat p0 < 14 * 16 + 16" using assms(1,2) by (simp_all add: word_le_nat_alt)
  have b: "2 * 64 \<le> unat b1" "unat b1 < 2 * 64 + 64" using assms(3,4) by (simp_all add: word_le_nat_alt)
  have c: "2 * 64 \<le> unat b2" "unat b2 < 2 * 64 + 64" using assms(5) by (simp_all add: word_le_nat_alt continuation_def)
  have "unat p0 mod 16 < 16" "unat b1 mod 64 < 64" "unat b2 mod 64 < 64" by simp_all
  from three_byte_FEFF[OF this] assms(6)
  have m: "unat p0 mod 16 = 15" "unat b1 mod 64 = 59" "unat b2 mod 64 = 63" by simp_all
  have "unat p0 = 239" "unat b1 = 187" "unat b2 = 191"
    using mod_range[OF a] mod_range[OF b] mod_range[OF c] m a b c by simp_all
  then have "unat p0 = unat (0xEF :: byte)" "unat b1 = unat (0xBB :: byte)" "unat b2 = unat (0xBF::byte)" by simp_all
  then show ?thesis by (simp only: word_unat_eq_iff) 
qed

lemma two_byte_small: "(a::nat) mod 32 * 64 + b mod 64 \<noteq> 65279"
proof -
  have "a mod 32 < 32" "b mod 64 < 64" by simp_all
  then show ?thesis by linarith
qed

lemma four_byte_large:
  fixes a b c d :: nat
  assumes "1 \<le> a mod 8 \<or> 16 \<le> b mod 64"
  shows "a mod 8 * 262144 + b mod 64 * 4096 + c mod 64 * 64 + d mod 64 \<noteq> 65279"
  using assms by linarith

lemma DecodeRune_BOM: "DecodeRune (0xEF # 0xBB # 0xBF # bs) = (0xFEFF, 3)"
  by (simp add: DecodeRune_def first_byte_def continuation_def)

lemma DecodeRune_FEFF:
  assumes "fst (DecodeRune p) = 0xFEFF"
  shows "\<exists>bs. p = 0xEF # 0xBB # 0xBF # bs"
proof (cases p)
  case Nil
  then show ?thesis using assms by (simp add: DecodeRune_def RuneError_def)
next
  case (Cons p0 ps)
  show ?thesis
  proof (cases "p0 < 0x80")
    case True
    then have "unat p0 < 128" by (simp add: word_less_nat_alt)
    then show ?thesis using assms Cons True by (simp add: DecodeRune_def)
  next
    case False
    show ?thesis
    proof (cases "first_byte p0")
      case None
      then show ?thesis using assms Cons False by (simp add: DecodeRune_def RuneError_def)
    next
      case (Some t)
      obtain sz lo hi where t: "t = (sz, lo, hi)" by (cases t)
      have fb: "first_byte p0 = Some (sz, lo, hi)" using Some t by simp
      have D0: "DecodeRune p = (if length p < sz then (RuneError, 1)
                else if p ! 1 < lo \<or> hi < p ! 1 then (RuneError, 1)
                else if sz \<le> 2 then (unat p0 mod 32 * 64 + unat (p ! 1) mod 64, 2)
                else if \<not> continuation (p ! 2) then (RuneError, 1)
                else if sz \<le> 3 then
                  (unat p0 mod 16 * 4096 + unat (p ! 1) mod 64 * 64 + unat (p ! 2) mod 64, 3)
                else if \<not> continuation (p ! 3) then (RuneError, 1)
                else (unat p0 mod 8 * 262144 + unat (p ! 1) mod 64 * 4096
                        + unat (p ! 2) mod 64 * 64 + unat (p ! 3) mod 64, 4))"
        unfolding Cons using False fb by (simp add: DecodeRune_def Let_def)
      note D = assms[unfolded D0]
      from first_byte_cases[OF fb] show ?thesis
      proof (elim disjE conjE)
        assume "sz = 2"
        then show ?thesis using D two_byte_small
          by (auto simp add: RuneError_def Let_def split: if_splits)
      next
        assume h: "sz = 3" "0xE0 \<le> p0" "p0 \<le> 0xEF" "0x80 \<le> lo" "hi \<le> 0xBF"
        from D h(1) have len: "3 \<le> length p" and b1: "lo \<le> p ! 1" "p ! 1 \<le> hi"
          and b2: "continuation (p ! 2)"
          and v: "unat p0 mod 16 * 4096 + unat (p ! 1) mod 64 * 64 + unat (p ! 2) mod 64 = 0xFEFF"
          by (auto simp add: RuneError_def Let_def split: if_splits)
        have "0x80 \<le> p ! 1" "p ! 1 \<le> 0xBF" using b1 h(4,5) by auto
        from bom3[OF h(2,3) this b2 v] have e: "p0 = 0xEF" "p ! 1 = 0xBB" "p ! 2 = 0xBF" by simp_all
        obtain c1 c2 bs where "ps = c1 # c2 # bs" using len Cons
          by (cases ps; cases "tl ps") auto
        then show ?thesis using e Cons by simp
      next
        assume h: "sz = 4" "p0 = 0xF0" "lo = 0x90" "hi = 0xBF"
        have r: "lo \<le> p ! 1 \<Longrightarrow> p ! 1 \<le> hi \<Longrightarrow> 16 \<le> unat (p ! 1) mod 64"
        proof -
          assume "lo \<le> p ! 1" "p ! 1 \<le> hi"
          then have "144 \<le> unat (p ! 1)" "unat (p ! 1) < 192" using h(3,4) by (simp_all add: word_le_nat_alt)
          then show ?thesis using mod_range[of 2 64 "unat (p ! 1)"] by simp
        qed
        show ?thesis using D h(1) r four_byte_large[of "unat p0" "unat (p ! 1)"]
          by (auto simp add: RuneError_def Let_def split: if_splits)
      next
        assume h: "sz = 4" "0xF1 \<le> p0" "p0 \<le> 0xF4"
        then have "241 \<le> unat p0" "unat p0 \<le> 244" by (simp_all add: word_le_nat_alt)
        then have "1 \<le> unat p0 mod 8" using mod_range[of 30 8 "unat p0"] by simp
        then show ?thesis using D h(1) four_byte_large[of "unat p0"]
          by (auto simp add: RuneError_def Let_def split: if_splits)
      qed
    qed
  qed
qed


subsection \<open>The sniffer and the decoding pipeline\<close>

lemma bytes_match_eq: "length m = length buf \<Longrightarrow> bytes_match m buf = (m = buf)"
  by (induction m buf rule: bytes_match.induct) auto

lemma unread_Peek [simp]: "unread (b\<lparr>lastRuneSize := n\<rparr>) = unread b"
  by (simp add: unread_def)

lemma rest_Peek [simp]: "rest (b\<lparr>lastRuneSize := n\<rparr>) = rest b"
  by (simp add: rest_def)

lemma CheckBytes_eq:
  assumes "length buf \<le> bufSize"
  shows "CheckBytes b buf =
           ((if length (unread b) < length buf then (False, Some ErrNoContent)
             else (take (length buf) (unread b) = buf, None)),
            b\<lparr>lastRuneSize := -1\<rparr>)"
  using assms by (simp add: CheckBytes_def Peek_def Let_def bytes_match_eq)

lemma IsGzip_eq:
  "IsGzip b = ((if length (unread b) < 2 then (False, Some ErrNoContent)
                else (take 2 (unread b) = gzip_magic, None)), b\<lparr>lastRuneSize := -1\<rparr>)"
proof -
  have "length gzip_magic = 2" by (simp add: gzip_magic_def)
  then show ?thesis by (simp add: IsGzip_def CheckBytes_eq bufSize_def)
qed

lemma IsXz_eq:
  "IsXz b = ((if length (unread b) < 6 then (False, Some ErrNoContent)
              else (take 6 (unread b) = xz_magic, None)), b\<lparr>lastRuneSize := -1\<rparr>)"
proof -
  have "length xz_magic = 6" by (simp add: xz_magic_def)
  then show ?thesis by (simp add: IsXz_def CheckBytes_eq bufSize_def)
qed

lemma IsZst_eq:
  "IsZst b = ((if length (unread b) < 4 then (False, Some ErrNoContent)
               else (take 4 (unread b) = zst_magic, None)), b\<lparr>lastRuneSize := -1\<rparr>)"
proof -
  have "length zst_magic = 4" by (simp add: zst_magic_def)
  then show ?thesis by (simp add: IsZst_def CheckBytes_eq bufSize_def)
qed

lemma not_EOF_simps [simp]:
  "not_EOF None = None" "not_EOF (Some ErrNoContent) = Some ErrNoContent"
  by (simp_all add: not_EOF_def)

text \<open>What the chain of sniffs comes to, by the length and the first bytes of the stream.\<close>

lemma Buf_sniff_eq:
  "Buf_sniff w b =
     (if length (unread b) < 2 then Inl ErrNoContent
      else if take 2 (unread b) = gzip_magic then
        (case decode w Gzip (rest b) of
           Inl e \<Rightarrow> Inl e
         | Inr s \<Rightarrow> Inr (NewReaderSize s, Some (DecoderH Gzip)))
      else if length (unread b) < 6 then Inl ErrNoContent
      else if take 6 (unread b) = xz_magic then
        (case decode w Xz (rest b) of
           Inl e \<Rightarrow> Inl e
         | Inr s \<Rightarrow> Inr (NewReaderSize s, None))
      else if take 4 (unread b) = zst_magic then
        (case decode w Zstd (rest b) of
           Inl e \<Rightarrow> Inl e
         | Inr s \<Rightarrow> Inr (NewReaderSize s, None))
      else Inr (b\<lparr>lastRuneSize := -1\<rparr>, None))"
  by (simp add: Buf_sniff_def IsGzip_eq IsXz_eq IsZst_eq)

lemma unread_NewReaderSize [simp]: "unread (NewReaderSize s) = bytes s"
  by (simp add: unread_def NewReaderSize_def)

lemma NewReaderSize_reset [simp]: "(NewReaderSize s)\<lparr>lastRuneSize := -1\<rparr> = NewReaderSize s"
  by (simp add: NewReaderSize_def)

lemma rest_NewReaderSize [simp]: "rest (NewReaderSize s) = s"
  by (cases s) (simp add: rest_def unread_def NewReaderSize_def)

lemma unread_moved [simp]: "unread (b\<lparr>rd_pos := k\<rparr>) = drop k (rd_data b)"
  by (simp add: unread_def)

lemma Buf_bom_empty: "unread b = [] \<Longrightarrow> Buf_bom b = Inl ErrNoContent"
  by (simp add: Buf_bom_def ReadRune_def)

lemma Buf_bom_mark:
  assumes "take 3 (unread b) = [0xEF, 0xBB, 0xBF]"
  shows "\<exists>b'. Buf_bom b = Inr b' \<and> unread b' = drop 3 (unread b)"
proof -
  obtain bs where u: "unread b = 0xEF # 0xBB # 0xBF # bs"
    using assms by (cases "unread b"; cases "tl (unread b)"; cases "tl (tl (unread b))") auto
  have d: "drop (rd_pos b + 3) (rd_data b) = drop 3 (unread b)"
    by (simp add: unread_def add.commute)
  show ?thesis
    by (simp add: Buf_bom_def ReadRune_def DecodeRune_BOM u d [unfolded u])
qed

lemma Buf_bom_other:
  assumes "unread b \<noteq> []" and "fst (DecodeRune (unread b)) \<noteq> 0xFEFF"
  shows "\<exists>b'. Buf_bom b = Inr b' \<and> unread b' = unread b"
proof -
  obtain t n where d: "DecodeRune (unread b) = (t, n)" by force
  then have "t \<noteq> 0xFEFF" using assms(2) by simp
  moreover have "drop (rd_pos b) (rd_data b) = unread b" by (simp add: unread_def)
  ultimately show ?thesis
    using assms(1) by (simp add: Buf_bom_def ReadRune_def UnreadRune_def d)
qed

lemma DecodeRune_FEFF_iff:
  "fst (DecodeRune p) = 0xFEFF \<longleftrightarrow> take 3 p = [0xEF, 0xBB, 0xBF]"
proof
  assume "fst (DecodeRune p) = 0xFEFF"
  then obtain bs where "p = 0xEF # 0xBB # 0xBF # bs" using DecodeRune_FEFF by blast
  then show "take 3 p = [0xEF, 0xBB, 0xBF]" by simp
next
  assume "take 3 p = [0xEF, 0xBB, 0xBF]"
  then obtain bs where "p = 0xEF # 0xBB # 0xBF # bs"
    by (cases p; cases "tl p"; cases "tl (tl p)") auto
  then show "fst (DecodeRune p) = 0xFEFF" by (simp add: DecodeRune_BOM)
qed

subsection \<open>The byte-order mark\<close>

text \<open>
  What \<^verbatim>\<open>Buf\<close> does once the sniffing stage has let a stream through. \<open>unread b\<close> is
  the stream that stage hands on, decoded if it was compressed. If it is empty, \<^verbatim>\<open>Buf\<close>
  fails with \<open>ErrNoContent\<close>. Its first rune is U+FEFF exactly when it starts with the
  bytes EF BB BF; then the reader \<^verbatim>\<open>Buf\<close> returns delivers the stream from its fourth
  byte on. If it starts with anything else, the reader delivers the whole stream, first
  byte included. A source that delivers no byte fails with \<open>ErrNoContent\<close> in the
  sniffing stage.
\<close>

lemma Buf_after_sniff:
  "(bytes (content r) = [] \<longrightarrow> Buf w r = Inl ErrNoContent)
   \<and> (Buf_sniff w (NewReaderSize (content r)) = Inr (b, g) \<longrightarrow>
        (unread b = [] \<longrightarrow> Buf w r = Inl ErrNoContent)
      \<and> (fst (DecodeRune (unread b)) = 0xFEFF \<longleftrightarrow> take 3 (unread b) = [0xEF, 0xBB, 0xBF])
      \<and> (take 3 (unread b) = [0xEF, 0xBB, 0xBF] \<longrightarrow>
           (\<exists>rd. Buf w r = Inr rd \<and> unread (buffered rd) = drop 3 (unread b)))
      \<and> (unread b \<noteq> [] \<and> take 3 (unread b) \<noteq> [0xEF, 0xBB, 0xBF] \<longrightarrow>
           (\<exists>rd. Buf w r = Inr rd \<and> unread (buffered rd) = unread b)))"
proof (intro conjI impI)
  show "Buf w r = Inl ErrNoContent" if "bytes (content r) = []"
    using that by (simp add: Buf_def Buf_sniff_eq)
next
  assume s: "Buf_sniff w (NewReaderSize (content r)) = Inr (b, g)"
  show "Buf w r = Inl ErrNoContent" if "unread b = []"
    using s that by (simp add: Buf_def Buf_bom_empty)
  show "fst (DecodeRune (unread b)) = 0xFEFF \<longleftrightarrow> take 3 (unread b) = [0xEF, 0xBB, 0xBF]"
    by (rule DecodeRune_FEFF_iff)
  show "\<exists>rd. Buf w r = Inr rd \<and> unread (buffered rd) = drop 3 (unread b)"
    if "take 3 (unread b) = [0xEF, 0xBB, 0xBF]"
    using s Buf_bom_mark[OF that] by (auto simp: Buf_def)
  show "\<exists>rd. Buf w r = Inr rd \<and> unread (buffered rd) = unread b"
    if "unread b \<noteq> [] \<and> take 3 (unread b) \<noteq> [0xEF, 0xBB, 0xBF]"
  proof -
    have "fst (DecodeRune (unread b)) \<noteq> 0xFEFF" using that DecodeRune_FEFF_iff by blast
    with that s Buf_bom_other[of b] show ?thesis by (auto simp: Buf_def)
  qed
qed

lemma sniff_bom_example:
  "Buf_sniff example_world (NewReaderSize (content bom_example))
     = Inr (NewReaderSize (content bom_example), None)"
  by (simp add: Buf_sniff_eq bom_example_def gzip_magic_def xz_magic_def zst_magic_def)

lemma sniff_gzip_example:
  "Buf_sniff example_world (NewReaderSize (content (encoded_example Gzip ''/tmp/a.gz'')))
     = Inr (NewReaderSize \<lparr>bytes = [0x68, 0x69], final = EOF\<rparr>, Some (DecoderH Gzip))"
  by (simp add: Buf_sniff_eq encoded_example_def store_encode_def magic_of_def gzip_magic_def
        example_world_def store_decode_def)

lemma Buf_after_sniff_examples:
  "Buf example_world empty_example = Inl ErrNoContent
   \<and> (\<exists>rd. Buf example_world bom_example = Inr rd
          \<and> unread (buffered rd) = [0x68, 0x69, 0x21, 0x0a])
   \<and> (\<exists>rd. Buf example_world (encoded_example Gzip ''/tmp/a.gz'') = Inr rd
          \<and> unread (buffered rd) = [0x68, 0x69])"
proof -
  have e: "bytes (content empty_example) = []"
    by (simp add: empty_example_def)
  have u: "bytes (content bom_example) = [0xEF, 0xBB, 0xBF, 0x68, 0x69, 0x21, 0x0a]"
    by (simp add: bom_example_def)
  have "Buf example_world empty_example = Inl ErrNoContent"
    using Buf_after_sniff[of empty_example example_world undefined undefined] e by simp
  moreover have "\<exists>rd. Buf example_world bom_example = Inr rd
          \<and> unread (buffered rd) = [0x68, 0x69, 0x21, 0x0a]"
    using Buf_after_sniff[of bom_example example_world "NewReaderSize (content bom_example)" None]
      sniff_bom_example by (simp add: u)
  moreover have "\<exists>rd. Buf example_world (encoded_example Gzip ''/tmp/a.gz'') = Inr rd
          \<and> unread (buffered rd) = [0x68, 0x69]"
    using Buf_after_sniff[of "encoded_example Gzip ''/tmp/a.gz''" example_world
        "NewReaderSize \<lparr>bytes = [0x68, 0x69], final = EOF\<rparr>" "Some (DecoderH Gzip)"]
      sniff_gzip_example by simp
  ultimately show ?thesis by blast
qed

subsection \<open>Where the code departs from its specification\<close>

text \<open>
  Claim C10 (the code departs from it). The plain stream EF BB BF 61 starts with the
  byte-order mark, and \<^verbatim>\<open>Buf\<close> neither discards the mark nor returns a reader that
  starts at the byte 61: it fails with \<open>ErrNoContent\<close>. The stream is shorter than the
  xz signature, so the peek of six bytes meets its end, \<^verbatim>\<open>CheckBytes\<close> turns that
  into \<open>ErrNoContent\<close>, and the test \<^verbatim>\<open>err != io.EOF\<close> returns it before the lines
  that handle the mark are reached. With three more bytes the same stream is opened and
  the mark discarded.
\<close>

theorem Buf_short_stream_with_mark_fails:
  "Buf w short_bom_example = Inl ErrNoContent
   \<and> (\<exists>rd. Buf w bom_example = Inr rd \<and> unread (buffered rd) = [0x68, 0x69, 0x21, 0x0a])"
proof -
  have s: "Buf_sniff w (NewReaderSize (content bom_example))
             = Inr (NewReaderSize (content bom_example), None)"
    by (simp add: Buf_sniff_eq bom_example_def gzip_magic_def xz_magic_def zst_magic_def)
  have u: "bytes (content bom_example) = [0xEF, 0xBB, 0xBF, 0x68, 0x69, 0x21, 0x0a]"
    by (simp add: bom_example_def)
  have "Buf w short_bom_example = Inl ErrNoContent"
    by (simp add: Buf_def Buf_sniff_eq short_bom_example_def gzip_magic_def)
  moreover have "\<exists>rd. Buf w bom_example = Inr rd
      \<and> unread (buffered rd) = [0x68, 0x69, 0x21, 0x0a]"
    using Buf_after_sniff[of bom_example w "NewReaderSize (content bom_example)" None] s
    by (simp add: u)
  ultimately show ?thesis by blast
qed

text \<open>
  Claim C2 (the code departs from it). A plain stream of the three bytes \<^verbatim>\<open>abc\<close>
  matches no signature, yet \<^verbatim>\<open>Buf\<close> fails with \<open>ErrNoContent\<close>: the peek of six bytes for
  the xz signature meets the end of the stream, \<^verbatim>\<open>CheckBytes\<close> turns that into
  \<open>ErrNoContent\<close>, and the test \<^verbatim>\<open>err != io.EOF\<close> of \<^verbatim>\<open>Buf\<close> lets it through as fatal.
\<close>

theorem Buf_short_plain_stream_fails:
  "Buf w short_example = Inl ErrNoContent"
  by (simp add: Buf_def Buf_sniff_eq short_example_def gzip_magic_def)

text \<open>
  Claim C7 (the code departs from it). A stream whose first read fails with an I/O
  error makes \<^verbatim>\<open>CheckBytes\<close> signal \<open>ErrNoContent\<close>, the same result as for an empty
  stream that ends with \<open>EOF\<close>: the caller cannot tell a read failure from no content.
\<close>

theorem CheckBytes_read_failure_is_no_content:
  "fst (CheckBytes (NewReaderSize \<lparr>bytes = [], final = External ''read: input/output error''\<rparr>) gzip_magic)
     = (False, Some ErrNoContent)
   \<and> fst (CheckBytes (NewReaderSize \<lparr>bytes = [], final = EOF\<rparr>) gzip_magic)
     = (False, Some ErrNoContent)"
  by (simp add: CheckBytes_def Peek_def gzip_magic_def bufSize_def)

text \<open>
  Claim C9 (the code departs from it). On the empty descriptor \<^verbatim>\<open>Ropen\<close> neither
  returns a reader nor an error: the index expression \<^verbatim>\<open>f[0]\<close> panics.
\<close>

theorem Ropen_empty_descriptor_panics:
  "fst (Ropen w '''') = Panic ''index out of range [0] with length 0''"
  by (simp add: Ropen_def)

text \<open>
  Claim C3 (the code departs from it). For the descriptor \<^verbatim>\<open>|ls -lh somefile.gz\<close> the
  text after the bar splits into three tokens, and \<^verbatim>\<open>Ropen\<close> starts \<^verbatim>\<open>ls\<close> with no
  argument at all: the arguments are passed only when there are exactly two tokens.
\<close>

theorem Ropen_pipe_drops_arguments:
  "Split ''ls -lh somefile.gz'' CHR '' '' = [''ls'', ''-lh'', ''somefile.gz'']
   \<and> log (snd (Ropen example_world ''|ls -lh somefile.gz'')) = [Started ''ls'' []]"
  by (simp add: Ropen_def example_world_def record_event_def Let_def)

text \<open>
  Claim C5 (the code departs from it). With bob's home directory \<^verbatim>\<open>/home/bob\<close>,
  \<^verbatim>\<open>ExpandUser\<close> turns \<^verbatim>\<open>~bob/x\<close> into \<^verbatim>\<open>/home/bob/bob/x\<close>: the user's name stays in
  the path that is appended to the home directory.
\<close>

theorem ExpandUser_named_user_keeps_name:
  "lookup_user example_world ''bob'' = Inr ''/home/bob''
   \<and> ExpandUser example_world ''~bob/x'' = Inr ''/home/bob/bob/x''"
  by (simp add: ExpandUser_def example_world_def)


subsection \<open>Closing a reader\<close>

lemma Buf_fields:
  assumes "Buf w s = Inr rd"
  shows "rdr rd = s"
    and "gz rd = (if take 2 (bytes (content s)) = gzip_magic then Some (DecoderH Gzip) else None)"
  using assms
  by (auto simp: Buf_def Buf_sniff_eq split: sum.splits if_splits prod.splits)

text \<open>
  Claim C6, as the code has it. A reader that \<^verbatim>\<open>Buf\<close> returned keeps a decoder only
  when the stream started with the gzip signature. \<^verbatim>\<open>Close\<close> closes that gzip decoder
  first and then the raw source, if the source can be closed, each once; when the
  stream was plain, xz or zstd it closes the raw source only. The errors of both
  closes are dropped: \<^verbatim>\<open>Close\<close> returns nil and the second close is made whatever the
  first returned.
\<close>

theorem Reader_Close_after_Buf:
  assumes "Buf w s = Inr rd"
  shows "Reader_Close w' rd =
           (None,
            w'\<lparr>log := log w'
                   @ (if take 2 (bytes (content s)) = gzip_magic then [Closed (DecoderH Gzip)] else [])
                   @ (case closer s of Some c \<Rightarrow> [Closed c] | None \<Rightarrow> [])\<rparr>)"
  using Buf_fields[OF assms]
  by (simp add: Reader_Close_def close_handle_def record_event_def split: option.splits)

lemma Buf_gzip_example:
  "Buf example_world (encoded_example Gzip ''/tmp/a.gz'') =
     Inr \<lparr>buffered = \<lparr>rd_data = [0x68, 0x69], rd_final = EOF, rd_pos = 0, lastRuneSize = -1\<rparr>,
          rdr = encoded_example Gzip ''/tmp/a.gz'',
          gz = Some (DecoderH Gzip)\<rparr>"
  by (simp add: Buf_def Buf_sniff_eq encoded_example_def store_encode_def magic_of_def
        gzip_magic_def example_world_def store_decode_def Buf_bom_def ReadRune_def
        DecodeRune_def UnreadRune_def NewReaderSize_def unread_def rest_def)

theorem Reader_Close_after_Buf_witness:
  "\<exists>rd. Buf example_world (encoded_example Gzip ''/tmp/a.gz'') = Inr rd
      \<and> close_error failing_world (DecoderH Gzip) = Some (External ''close failed'')
      \<and> fst (Reader_Close failing_world rd) = None
      \<and> log (snd (Reader_Close failing_world rd))
          = [Closed (DecoderH Gzip), Closed (FileH ''/tmp/a.gz'')]"
proof -
  have m: "take 2 (bytes (content (encoded_example Gzip ''/tmp/a.gz''))) = gzip_magic"
    by (simp add: encoded_example_def store_encode_def magic_of_def gzip_magic_def)
  have c: "closer (encoded_example Gzip ''/tmp/a.gz'') = Some (FileH ''/tmp/a.gz'')"
    by (simp add: encoded_example_def)
  have l: "log failing_world = []"
    by (simp add: failing_world_def example_world_def)
  have e: "close_error failing_world (DecoderH Gzip) = Some (External ''close failed'')"
    by (simp add: failing_world_def)
  from Reader_Close_after_Buf[OF Buf_gzip_example, of failing_world] show ?thesis
    using Buf_gzip_example by (simp add: m c l e)
qed

text \<open>
  Claim C6 as stated fails for xz: a reader opened on an xz stream and then closed
  makes one call, the close of the file; the xz decoder is not closed.
\<close>

theorem Reader_Close_xz_decoder_not_closed:
  "open_then_close example_world (encoded_example Xz ''/tmp/a.xz'')
     = Inr [Closed (FileH ''/tmp/a.xz'')]
   \<and> open_then_close example_world (encoded_example Xz ''/tmp/a.xz'')
     \<noteq> Inr [Closed (DecoderH Xz), Closed (FileH ''/tmp/a.xz'')]"
  by (simp add: open_then_close_def Buf_def Buf_sniff_eq encoded_example_def store_encode_def
        magic_of_def gzip_magic_def xz_magic_def example_world_def store_decode_def Buf_bom_def
        ReadRune_def DecodeRune_def UnreadRune_def NewReaderSize_def unread_def rest_def
        Reader_Close_def close_handle_def record_event_def)


subsection \<open>Writers: the buffer and the encoder\<close>

lemma encoder_of_set_encoder [simp]:
  "encoder_of (set_encoder W fmt e) fmt' = (if fmt' = fmt then Some e else encoder_of W fmt')"
  by (cases fmt; cases fmt') (simp_all add: encoder_of_def set_encoder_def)

lemma set_encoder_fields [simp]:
  "bw (set_encoder W fmt e) = bw W" "wtr (set_encoder W fmt e) = wtr W"
  by (cases fmt; simp add: set_encoder_def)+

lemma encoder_of_updates [simp]:
  "encoder_of (W\<lparr>bw := b\<rparr>) fmt = encoder_of W fmt"
  "encoder_of (W\<lparr>wtr := f\<rparr>) fmt = encoder_of W fmt"
  by (cases fmt; simp add: encoder_of_def)+

lemma enc_stateD:
  assumes "enc_state W fmt buf pend emit"
  shows "wr_buf (bw W) = buf" "wr_err (bw W) = None" "wr (bw W) = Some fmt"
    and "encoder_of W fmt = Some \<lparr>enc_pending = pend, enc_emitted = emit, enc_closed = False\<rparr>"
    and "fmt' \<noteq> fmt \<Longrightarrow> encoder_of W fmt' = None"
  using assms by (simp_all add: enc_state_def)

lemma frame_refl [simp]: "frame w w"
  by (simp add: frame_def)

lemma frame_trans: "frame w w' \<Longrightarrow> frame w' w'' \<Longrightarrow> frame w w''"
  by (simp add: frame_def)

lemma frame_updates [simp]:
  "frame w (w'\<lparr>log := l\<rparr>) = frame w w'"
  "frame w (w'\<lparr>fs := m\<rparr>) = frame w w'"
  "frame w (w'\<lparr>stdout := out\<rparr>) = frame w w'"
  by (simp_all add: frame_def)

lemma frame_record_event [simp]: "frame w (record_event w' e) = frame w w'"
  by (simp add: record_event_def)


lemma lower_Write_enc:
  assumes "enc_state W fmt buf pend emit"
  shows "\<exists>W'. lower_Write w W p = (None, W', w)
            \<and> enc_state W' fmt buf (pend @ p) emit \<and> wtr W' = wtr W"
  using assms
  by (simp add: lower_Write_def enc_state_def Encoder_Write_def)

lemma bufio_Flush_enc:
  assumes "enc_state W fmt buf pend emit"
  shows "\<exists>W'. bufio_Flush w W = (None, W', record_event w (Flushed BufioW))
            \<and> enc_state W' fmt [] (pend @ buf) emit \<and> wtr W' = wtr W"
proof (cases "buf = []")
  case True
  then show ?thesis using assms by (simp add: bufio_Flush_def enc_state_def)
next
  case False
  obtain W' where l: "lower_Write (record_event w (Flushed BufioW)) W buf
                        = (None, W', record_event w (Flushed BufioW))"
    and s: "enc_state W' fmt buf (pend @ buf) emit" and t: "wtr W' = wtr W"
    using lower_Write_enc[OF assms] by blast
  have "enc_state (W'\<lparr>bw := (bw W')\<lparr>wr_buf := []\<rparr>\<rparr>) fmt [] (pend @ buf) emit"
    using s by (simp add: enc_state_def)
  then show ?thesis
    using assms False l t by (simp add: bufio_Flush_def enc_state_def Let_def)
qed

lemma bufio_Write_enc:
  assumes "enc_state W fmt buf pend emit"
  shows "\<exists>W' w' buf' pend'. bufio_Write w W p = (None, W', w')
            \<and> enc_state W' fmt buf' pend' emit \<and> pend' @ buf' = pend @ buf @ p
            \<and> wtr W' = wtr W \<and> fs w' = fs w \<and> frame w w'"
  using assms
proof (induction w W p arbitrary: buf pend rule: bufio_Write.induct)
  case (1 w W p)
  note st = enc_stateD[OF "1.prems"]
  show ?case
  proof (cases "length p > Available (bw W)")
    case False
    have "enc_state (W\<lparr>bw := (bw W)\<lparr>wr_buf := wr_buf (bw W) @ p\<rparr>\<rparr>) fmt (buf @ p) pend emit"
      using "1.prems" by (simp add: enc_state_def)
    then show ?thesis
      using False st by (subst bufio_Write.simps) auto
  next
    case True
    show ?thesis
    proof (cases "Buffered (bw W) = 0")
      case empty: True
      then have b: "buf = []" using st by (simp add: Buffered_def)
      obtain W' where l: "lower_Write w W p = (None, W', w)"
        and s: "enc_state W' fmt buf (pend @ p) emit" and t: "wtr W' = wtr W"
        using lower_Write_enc[OF "1.prems"] by blast
      show ?thesis
        using True empty st l s t b by (subst bufio_Write.simps) auto
    next
      case nonempty: False
      define n where "n = Available (bw W)"
      define W1 where "W1 = W\<lparr>bw := (bw W)\<lparr>wr_buf := wr_buf (bw W) @ take n p\<rparr>\<rparr>"
      have s1: "enc_state W1 fmt (buf @ take n p) pend emit"
        using "1.prems" by (simp add: enc_state_def W1_def)
      obtain W2 where f: "bufio_Flush w W1 = (None, W2, record_event w (Flushed BufioW))"
        and s2: "enc_state W2 fmt [] (pend @ buf @ take n p) emit" and t2: "wtr W2 = wtr W1"
        using bufio_Flush_enc[OF s1] by auto
      have cond: "Available (bw W) < length p \<and> wr_err (bw W) = None"
        using True st by simp
      from "1.IH"[OF cond nonempty n_def W1_def f[symmetric] refl s2]
      obtain W' w' buf' pend' where
        r: "bufio_Write (record_event w (Flushed BufioW)) W2 (drop n p) = (None, W', w')"
        and s': "enc_state W' fmt buf' pend' emit"
        and e: "pend' @ buf' = (pend @ buf @ take n p) @ [] @ drop n p"
        and t': "wtr W' = wtr W2"
        and fs': "fs w' = fs (record_event w (Flushed BufioW))"
        and fr: "frame (record_event w (Flushed BufioW)) w'"
        by blast
      have "bufio_Write w W p =
              (case bufio_Flush w W1 of (err, W2, w2) \<Rightarrow> bufio_Write w2 W2 (drop n p))"
        using True nonempty st(2)
        by (subst bufio_Write.simps) (simp add: n_def W1_def Let_def)
      then have "bufio_Write w W p = (None, W', w')"
        using f r by simp
      moreover have "pend' @ buf' = pend @ buf @ p" using e by simp
      moreover have "wtr W' = wtr W" using t' t2 by (simp add: W1_def)
      moreover have "fs w' = fs w" using fs' by (simp add: record_event_def)
      moreover have "frame w w'"
        using fr by (simp add: frame_def record_event_def)
      ultimately show ?thesis using s' by blast
    qed
  qed
qed


lemma world_log_twice [simp]: "record_event (record_event w a) b = w\<lparr>log := log w @ [a, b]\<rparr>"
  by (simp add: record_event_def)

lemma flush_encoder_other:
  assumes "encoder_of W fmt' = None"
  shows "flush_encoder w W fmt' = (W, w)"
  using assms by (simp add: flush_encoder_def)

lemma flush_encoder_same:
  assumes "enc_state W fmt buf pend emit"
  shows "\<exists>W'. flush_encoder w W fmt = (W', record_event w (Flushed (EncoderH fmt)))
            \<and> wtr W' = wtr W
            \<and> (if flush_error w (EncoderH fmt) = None
               then enc_state W' fmt buf [] (emit @ pend)
               else enc_state W' fmt buf pend emit)"
  using assms
  by (auto simp: flush_encoder_def enc_state_def Encoder_Flush_def flush_handle_def
        record_event_def split: option.splits)

lemma Writer_Flush_enc:
  assumes "enc_state W fmt buf pend emit"
  shows "\<exists>W'. Writer_Flush w W =
                 (W', w\<lparr>log := log w @ [Flushed BufioW]
                              @ (if fmt = Xz then [] else [Flushed (EncoderH fmt)])\<rparr>)
            \<and> wtr W' = wtr W
            \<and> (if fmt = Xz \<or> flush_error w (EncoderH fmt) \<noteq> None
               then enc_state W' fmt [] (pend @ buf) emit
               else enc_state W' fmt [] [] (emit @ pend @ buf))"
proof -
  let ?w1 = "record_event w (Flushed BufioW)"
  obtain W1 where f: "bufio_Flush w W = (None, W1, ?w1)"
    and s1: "enc_state W1 fmt [] (pend @ buf) emit" and t1: "wtr W1 = wtr W"
    using bufio_Flush_enc[OF assms] by blast
  note n1 = enc_stateD(5)[OF s1]
  have fe: "flush_error ?w1 = flush_error w" by (simp add: record_event_def)
  show ?thesis
  proof (cases fmt)
    case Gzip
    obtain W2 where g: "flush_encoder ?w1 W1 Gzip = (W2, record_event ?w1 (Flushed (EncoderH Gzip)))"
      and t2: "wtr W2 = wtr W1"
      and s2: "if flush_error ?w1 (EncoderH Gzip) = None
               then enc_state W2 Gzip [] [] (emit @ pend @ buf)
               else enc_state W2 Gzip [] (pend @ buf) emit"
      using flush_encoder_same[OF s1[unfolded Gzip], of ?w1] by auto
    have "encoder_of W2 Zstd = None"
      using s2 by (auto simp: enc_state_def split: if_splits)
    then show ?thesis
      using f g t1 t2 s2 Gzip fe
      by (auto simp: Writer_Flush_def flush_encoder_other record_event_def)
  next
    case Xz
    then show ?thesis
      using f s1 t1 n1
      by (simp add: Writer_Flush_def flush_encoder_other record_event_def)
  next
    case Zstd
    have z: "encoder_of W1 Gzip = None" using n1 Zstd by simp
    obtain W2 where g: "flush_encoder ?w1 W1 Zstd = (W2, record_event ?w1 (Flushed (EncoderH Zstd)))"
      and t2: "wtr W2 = wtr W1"
      and s2: "if flush_error ?w1 (EncoderH Zstd) = None
               then enc_state W2 Zstd [] [] (emit @ pend @ buf)
               else enc_state W2 Zstd [] (pend @ buf) emit"
      using flush_encoder_same[OF s1[unfolded Zstd], of ?w1] by auto
    show ?thesis
      using f g t1 t2 s2 Zstd fe z
      by (auto simp: Writer_Flush_def flush_encoder_other record_event_def)
  qed
qed

lemma new_writer_state:
  "enc_state \<lparr>bw = NewWriterSize (Some Gzip), wtr = h, wgz = Some new_encoder, xw = None, zw = None\<rparr>
     Gzip [] [] []"
  "enc_state \<lparr>bw = NewWriterSize (Some Xz), wtr = h, wgz = None, xw = Some new_encoder, zw = None\<rparr>
     Xz [] [] []"
  "enc_state \<lparr>bw = NewWriterSize (Some Zstd), wtr = h, wgz = None, xw = None, zw = Some new_encoder\<rparr>
     Zstd [] [] []"
  by (auto simp: enc_state_def NewWriterSize_def new_encoder_def encoder_of_def split: format.splits)

lemma WopenFile_enc:
  assumes "WopenFile w f flag perm = ((Some W, None), w1)" and "format_of_name f = Some fmt"
  shows "enc_state W fmt [] [] []"
proof -
  obtain h where W: "W = (case fmt of
        Gzip \<Rightarrow> \<lparr>bw = NewWriterSize (Some Gzip), wtr = h, wgz = Some new_encoder, xw = None, zw = None\<rparr>
      | Xz \<Rightarrow> \<lparr>bw = NewWriterSize (Some Xz), wtr = h, wgz = None, xw = Some new_encoder, zw = None\<rparr>
      | Zstd \<Rightarrow> \<lparr>bw = NewWriterSize (Some Zstd), wtr = h, wgz = None, xw = None, zw = Some new_encoder\<rparr>)"
    using assms
    by (auto simp: WopenFile_def format_of_name_def Let_def new_encoder_opt_def
          split: prod.splits sum.splits if_splits option.splits)
  show ?thesis unfolding W by (cases fmt) (simp_all add: new_writer_state)
qed


lemma format_of_name_nonempty: "format_of_name f = Some fmt \<Longrightarrow> f \<noteq> []"
  by (auto simp: format_of_name_def HasSuffix_def ToLower_def split: if_splits)

lemma os_Stat_there: "fs w f = Some n \<Longrightarrow> os_Stat w f = Inr n"
  by (simp add: os_Stat_def)

lemma os_Stat_fresh:
  assumes "f \<noteq> []" and "fs w f = None" and "fs w (filepath_Dir w f) = Some Directory"
  shows "os_Stat w f = Inl ENOENT"
proof -
  obtain c fuel where f: "f = c # fuel" using assms(1) by (cases f) auto
  have "\<not> below_file w (c # fuel) f" using assms(3) by (simp add: Let_def)
  then show ?thesis using assms(1,2) f by (simp add: os_Stat_def)
qed

lemma os_OpenFile_frame: "frame w (snd (os_OpenFile w name flag perm))"
  by (simp add: os_OpenFile_def Let_def split: sum.splits node.splits)

lemma os_MkdirAll_frame: "frame w (os_MkdirAll w dir)"
  by (simp add: os_MkdirAll_def split: option.splits)

lemma WopenFile_frame: "frame w (snd (WopenFile w f flag perm))"
proof -
  have a: "frame w (snd (os_OpenFile (os_MkdirAll w d) f flag perm))" for d
    using frame_trans[OF os_MkdirAll_frame os_OpenFile_frame] .
  have b: "frame w (snd (os_OpenFile w f flag perm))"
    by (rule os_OpenFile_frame)
  have c: "snd (case x of (Inl err, w') \<Rightarrow> ((None, Some err), w') | (Inr h, w') \<Rightarrow> k h w') = snd x"
    if "\<And>h w'. snd (k h w') = w'" for x :: "(error + os_File) \<times> world"
      and k :: "os_File \<Rightarrow> world \<Rightarrow> (Writer option \<times> error option) \<times> world"
    using that by (cases x; cases "fst x") auto
  show ?thesis
    unfolding WopenFile_def Let_def
    by (subst c) (auto simp: a b)
qed

lemma frameD:
  assumes "frame w w'"
  shows "flush_error w' = flush_error w" "close_error w' = close_error w"
    "encode w' = encode w" "decode w' = decode w"
  using assms by (simp_all add: frame_def)

lemma WopenFile_no_error:
  assumes "snd (fst (WopenFile w f flag perm)) = None"
  shows "\<exists>W w1. WopenFile w f flag perm = ((Some W, None), w1)"
proof -
  have c: "\<exists>W w1. (case x of (Inl err, w') \<Rightarrow> ((None, Some err), w') | (Inr h, w') \<Rightarrow> k h w')
              = ((Some W, None), w1)"
    if "snd (fst (case x of (Inl err, w') \<Rightarrow> ((None, Some err), w') | (Inr h, w') \<Rightarrow> k h w')) = None"
      and "\<And>h w'. fst (fst (k h w')) \<noteq> None"
    for x :: "(error + os_File) \<times> world"
      and k :: "os_File \<Rightarrow> world \<Rightarrow> (Writer option \<times> error option) \<times> world"
  proof (cases x)
    case (Pair r w')
    show ?thesis
    proof (cases r)
      case (Inl e)
      then show ?thesis using that(1) Pair by simp
    next
      case (Inr h)
      obtain W e w1 where k: "k h w' = ((W, e), w1)" by (cases "k h w'") auto
      then have "W \<noteq> None" "e = None" using that(2)[of h w'] that(1) Pair Inr by simp_all
      then show ?thesis using k Pair Inr by auto
    qed
  qed
  show ?thesis
    using assms unfolding WopenFile_def Let_def
    by (intro c) simp_all
qed

text \<open>
  The state after opening a name of format \<open>fmt\<close> and writing \<open>B\<close>: buffer and encoder
  hold \<open>B\<close> between them, nothing has reached the file.
\<close>

lemma write_all_enc:
  assumes "snd (fst (WopenFile w f flag perm)) = None" and "format_of_name f = Some fmt"
  shows "\<exists>W0 w1 W2 w2 buf pend.
           WopenFile w f flag perm = ((Some W0, None), w1)
         \<and> write_all w f flag perm B = Inr (W2, w2)
         \<and> enc_state W2 fmt buf pend [] \<and> pend @ buf = B
         \<and> wtr W2 = wtr W0 \<and> fs w2 = fs w1 \<and> frame w w2"
proof -
  obtain W0 w1 where o: "WopenFile w f flag perm = ((Some W0, None), w1)"
    using WopenFile_no_error[OF assms(1)] by blast
  have f1: "frame w w1" using WopenFile_frame[of w f flag perm] o by simp
  from bufio_Write_enc[OF WopenFile_enc[OF o assms(2)], of w1 B]
  obtain W2 w2 buf pend where r: "bufio_Write w1 W0 B = (None, W2, w2)"
    and s: "enc_state W2 fmt buf pend []" and e: "pend @ buf = B"
    and t: "wtr W2 = wtr W0" and fs2: "fs w2 = fs w1" and f2: "frame w1 w2"
    by auto
  have "write_all w f flag perm B = Inr (W2, w2)"
    using o r by (simp add: write_all_def)
  then show ?thesis using o s e t fs2 frame_trans[OF f1 f2] by blast
qed

lemma write_then_flush_eq:
  assumes "snd (fst (WopenFile w f flag perm)) = None" and "format_of_name f = Some fmt"
    and "flush_error w (EncoderH fmt) = None"
  shows "write_then_flush w f flag perm B =
           Inr ([],
                Some (if fmt = Xz
                      then \<lparr>enc_pending = B, enc_emitted = [], enc_closed = False\<rparr>
                      else \<lparr>enc_pending = [], enc_emitted = B, enc_closed = False\<rparr>),
                [Flushed BufioW] @ (if fmt = Xz then [] else [Flushed (EncoderH fmt)]))"
proof -
  obtain W2 w2 buf pend where a: "write_all w f flag perm B = Inr (W2, w2)"
    and s: "enc_state W2 fmt buf pend []" and e: "pend @ buf = B" and fr: "frame w w2"
    using write_all_enc[OF assms(1,2), of B] by blast
  let ?w = "w2\<lparr>log := []\<rparr>"
  have fe: "flush_error ?w (EncoderH fmt) = None"
    using frameD(1)[OF fr] assms(3) by simp
  from Writer_Flush_enc[OF s, of ?w]
  obtain W3 where f: "Writer_Flush ?w W2 =
        (W3, ?w\<lparr>log := log ?w @ [Flushed BufioW] @ (if fmt = Xz then [] else [Flushed (EncoderH fmt)])\<rparr>)"
    and s3': "if fmt = Xz \<or> flush_error ?w (EncoderH fmt) \<noteq> None
              then enc_state W3 fmt [] (pend @ buf) []
              else enc_state W3 fmt [] [] ([] @ pend @ buf)"
    by blast
  have s3: "if fmt = Xz then enc_state W3 fmt [] B [] else enc_state W3 fmt [] [] B"
    using s3' fe e by (simp split: if_splits)
  have "wr_buf (bw W3) = []" using s3 by (auto simp: enc_state_def split: if_splits)
  moreover have "encoder_of W3 fmt =
      Some (if fmt = Xz then \<lparr>enc_pending = B, enc_emitted = [], enc_closed = False\<rparr>
            else \<lparr>enc_pending = [], enc_emitted = B, enc_closed = False\<rparr>)"
    using s3 by (auto simp: enc_state_def split: if_splits)
  ultimately show ?thesis
    using a f assms(2) by (simp add: write_then_flush_def)
qed

lemma open_example:
  "snd (fst (WopenFile example_world ''/tmp/a.gz'' write_flags 420)) = None"
  "snd (fst (WopenFile example_world ''/tmp/a.xz'' write_flags 420)) = None"
  "snd (fst (WopenFile example_world ''/tmp/a.zst'' write_flags 420)) = None"
  by (simp_all add: WopenFile_def example_world_def example_Dir_def os_Stat_def IsDir_def
        IsNotExist_def os_OpenFile_def write_flags_def has_bit_def Let_def ToLower_def
        lower_char_def HasSuffix_def)

lemma format_example:
  "format_of_name ''/tmp/a.gz'' = Some Gzip"
  "format_of_name ''/tmp/a.xz'' = Some Xz"
  "format_of_name ''/tmp/a.zst'' = Some Zstd"
  by (simp_all add: format_of_name_def ToLower_def lower_char_def HasSuffix_def)

text \<open>
  Claim C8, as the code has it. After a name with one of the three suffixes has been
  opened without error and \<open>B\<close> written, \<^verbatim>\<open>Flush\<close> empties the buffer into the encoder.
  For gzip and zstd it then flushes the encoder, which (when that flush reports no
  error) holds nothing back. For xz it makes no call to the encoder, and the encoder
  keeps \<open>B\<close> in its own buffer.
\<close>

theorem Writer_Flush_after_Write:
  assumes "snd (fst (WopenFile w f flag perm)) = None" and "format_of_name f = Some fmt"
    and "flush_error w (EncoderH fmt) = None"
  shows "write_then_flush w f flag perm B =
           Inr ([],
                Some (if fmt = Xz
                      then \<lparr>enc_pending = B, enc_emitted = [], enc_closed = False\<rparr>
                      else \<lparr>enc_pending = [], enc_emitted = B, enc_closed = False\<rparr>),
                [Flushed BufioW] @ (if fmt = Xz then [] else [Flushed (EncoderH fmt)]))"
  using assms by (rule write_then_flush_eq)

theorem Writer_Flush_after_Write_witness:
  "snd (fst (WopenFile example_world ''/tmp/a.zst'' write_flags 420)) = None
   \<and> format_of_name ''/tmp/a.zst'' = Some Zstd
   \<and> flush_error example_world (EncoderH Zstd) = None
   \<and> write_then_flush example_world ''/tmp/a.zst'' write_flags 420 [0x61, 0x62] =
       Inr ([], Some \<lparr>enc_pending = [], enc_emitted = [0x61, 0x62], enc_closed = False\<rparr>,
            [Flushed BufioW, Flushed (EncoderH Zstd)])"
proof -
  have h: "flush_error example_world (EncoderH Zstd) = None"
    by (simp add: example_world_def)
  from Writer_Flush_after_Write[OF open_example(3) format_example(3) h, of "[0x61, 0x62]"]
  show ?thesis using open_example(3) format_example(3) h by simp
qed

text \<open>
  Claim C8 as stated fails for xz: after \<^verbatim>\<open>Flush\<close> the byte written is still in the
  encoder's own buffer, and the only call made is the flush of the \<^verbatim>\<open>bufio.Writer\<close>.
\<close>

theorem Writer_Flush_xz_encoder_not_flushed:
  "write_then_flush example_world ''/tmp/a.xz'' write_flags 420 [0x61] =
     Inr ([], Some \<lparr>enc_pending = [0x61], enc_emitted = [], enc_closed = False\<rparr>,
          [Flushed BufioW])"
proof -
  have h: "flush_error example_world (EncoderH Xz) = None"
    by (simp add: example_world_def)
  from write_then_flush_eq[OF open_example(2) format_example(2) h, of "[0x61]"]
  show ?thesis by simp
qed


subsection \<open>Closing a writer\<close>

lemma shape_set_encoder:
  "encoder_of W fmt \<noteq> None \<Longrightarrow> shape (set_encoder W fmt e) = shape W"
  by (cases fmt) (auto simp: shape_def set_encoder_def encoder_of_def)

lemma File_Write_fd: "File_Write w f p = (err, f', w') \<Longrightarrow> fd f' = fd f \<and> log w' = log w"
  by (auto simp: File_Write_def Let_def split: if_splits handle.splits option.splits node.splits)

lemma lower_Write_shape:
  assumes "lower_Write w W p = (err, W', w')"
  shows "shape W' = shape W \<and> log w' = log w"
proof (cases "wr (bw W)")
  case None
  obtain e f' w1 where fw: "File_Write w (wtr W) p = (e, f', w1)" by (cases "File_Write w (wtr W) p")
  from File_Write_fd[OF fw] assms None fw show ?thesis
    by (auto simp: lower_Write_def shape_def)
next
  case (Some fmt)
  show ?thesis
  proof (cases "encoder_of W fmt")
    case None
    then show ?thesis using assms Some by (simp add: lower_Write_def)
  next
    case (Some e)
    then have "encoder_of W fmt \<noteq> None" by simp
    from shape_set_encoder[OF this] assms Some \<open>wr (bw W) = Some fmt\<close> show ?thesis
      by (auto simp: lower_Write_def split: prod.splits)
  qed
qed

lemma shape_bw [simp]: "shape (W\<lparr>bw := b\<rparr>) = shape W"
  by (simp add: shape_def)

lemma bufio_Flush_shape:
  assumes "bufio_Flush w W = (err, W', w')"
  shows "shape W' = shape W \<and> log w' = log w @ [Flushed BufioW]"
proof -
  let ?w0 = "record_event w (Flushed BufioW)"
  obtain e W1 w1 where l: "lower_Write ?w0 W (wr_buf (bw W)) = (e, W1, w1)"
    by (cases "lower_Write ?w0 W (wr_buf (bw W))")
  from lower_Write_shape[OF l] have "shape W1 = shape W" "log w1 = log w @ [Flushed BufioW]"
    by (simp_all add: record_event_def)
  then show ?thesis
    using assms l
    by (auto simp: bufio_Flush_def Let_def record_event_def split: option.splits if_splits)
qed

lemma flush_encoder_shape:
  assumes "flush_encoder w W fmt = (W', w')"
  shows "shape W' = shape W
       \<and> log w' = log w @ (if encoder_of W fmt = None then [] else [Flushed (EncoderH fmt)])"
proof (cases "encoder_of W fmt")
  case None
  then show ?thesis using assms by (simp add: flush_encoder_def)
next
  case (Some e)
  then have "encoder_of W fmt \<noteq> None" by simp
  from shape_set_encoder[OF this] assms Some show ?thesis
    by (auto simp: flush_encoder_def Encoder_Flush_def flush_handle_def record_event_def
          split: prod.splits option.splits if_splits)
qed

lemma shape_wtr: "fd f = fd (wtr W) \<Longrightarrow> shape (W\<lparr>wtr := f\<rparr>) = shape W"
  by (simp add: shape_def)

lemma Encoder_Close_fd:
  assumes "Encoder_Close w fmt e f = (err, e', f', w')"
  shows "fd f' = fd f \<and> log w' = log w @ [Closed (EncoderH fmt)]"
proof -
  let ?w1 = "record_event w (Closed (EncoderH fmt))"
  obtain x f1 w1 where fw: "File_Write ?w1 f (encode ?w1 fmt (enc_emitted e @ enc_pending e)) = (x, f1, w1)"
    by (cases "File_Write ?w1 f (encode ?w1 fmt (enc_emitted e @ enc_pending e))")
  from File_Write_fd[OF fw] have "fd f1 = fd f" "log w1 = log w @ [Closed (EncoderH fmt)]"
    by (simp_all add: record_event_def)
  then show ?thesis
    using assms fw
    by (auto simp: Encoder_Close_def close_handle_def Let_def record_event_def
          split: option.splits if_splits)
qed

lemma close_encoder_shape:
  assumes "close_encoder w W fmt = (W', w')"
  shows "shape W' = shape W
       \<and> log w' = log w @ (if encoder_of W fmt = None then [] else [Closed (EncoderH fmt)])"
proof (cases "encoder_of W fmt")
  case None
  then show ?thesis using assms by (simp add: close_encoder_def)
next
  case (Some e)
  obtain err e' f' w1 where c: "Encoder_Close w fmt e (wtr W) = (err, e', f', w1)"
    by (cases "Encoder_Close w fmt e (wtr W)")
  have ne: "encoder_of W fmt \<noteq> None" using Some by simp
  have "shape ((set_encoder W fmt e')\<lparr>wtr := f'\<rparr>) = shape W"
    using Encoder_Close_fd[OF c] shape_set_encoder[OF ne, of e']
    by (simp add: shape_wtr)
  then show ?thesis
    using assms Some c Encoder_Close_fd[OF c] by (auto simp: close_encoder_def)
qed

lemma encoder_of_shape:
  "shape W' = shape W \<Longrightarrow> (encoder_of W' fmt = None) = (encoder_of W fmt = None)"
  by (cases fmt) (auto simp: shape_def encoder_of_def)

lemma Writer_Flush_shape:
  assumes "Writer_Flush w W = (W', w')"
  shows "shape W' = shape W
       \<and> log w' = log w @ [Flushed BufioW]
           @ (if wgz W = None then [] else [Flushed (EncoderH Gzip)])
           @ (if zw W = None then [] else [Flushed (EncoderH Zstd)])"
proof -
  obtain e W1 w1 where a: "bufio_Flush w W = (e, W1, w1)" by (cases "bufio_Flush w W")
  obtain W2 w2 where b: "flush_encoder w1 W1 Gzip = (W2, w2)" by (cases "flush_encoder w1 W1 Gzip")
  obtain W3 w3 where c: "flush_encoder w2 W2 Zstd = (W3, w3)" by (cases "flush_encoder w2 W2 Zstd")
  note A = bufio_Flush_shape[OF a] and B = flush_encoder_shape[OF b] and C = flush_encoder_shape[OF c]
  have g: "(encoder_of W1 Gzip = None) = (wgz W = None)"
    using encoder_of_shape[of W1 W Gzip] A by (simp add: encoder_of_def)
  have z: "(encoder_of W2 Zstd = None) = (zw W = None)"
    using encoder_of_shape[of W2 W Zstd] A B by (simp add: encoder_of_def)
  have "W' = W3" "w' = w3" using assms a b c by (simp_all add: Writer_Flush_def)
  then show ?thesis using A B C g z by simp
qed

lemma File_Close_log:
  "fst (File_Close w f) = e \<Longrightarrow> log (snd (snd (File_Close w f))) = log w @ [Closed (fd f)]"
  by (simp add: File_Close_def close_handle_def record_event_def Let_def)

lemma Writer_Close_calls:
  "fst (Writer_Close w W) = None
   \<and> log (snd (snd (Writer_Close w W))) =
       log w @ [Flushed BufioW]
         @ (if wgz W = None then [] else [Flushed (EncoderH Gzip)])
         @ (if zw W = None then [] else [Flushed (EncoderH Zstd)])
         @ (if wgz W = None then [] else [Closed (EncoderH Gzip)])
         @ (if xw W = None then [] else [Closed (EncoderH Xz)])
         @ (if zw W = None then [] else [Closed (EncoderH Zstd)])
         @ [Closed (fd (wtr W))]"
proof -
  obtain W1 w1 where a: "Writer_Flush w W = (W1, w1)" by (cases "Writer_Flush w W")
  obtain W2 w2 where b: "close_encoder w1 W1 Gzip = (W2, w2)" by (cases "close_encoder w1 W1 Gzip")
  obtain W3 w3 where c: "close_encoder w2 W2 Xz = (W3, w3)" by (cases "close_encoder w2 W2 Xz")
  obtain W4 w4 where d: "close_encoder w3 W3 Zstd = (W4, w4)" by (cases "close_encoder w3 W3 Zstd")
  note A = Writer_Flush_shape[OF a] and B = close_encoder_shape[OF b]
    and C = close_encoder_shape[OF c] and D = close_encoder_shape[OF d]
  have g: "(encoder_of W1 Gzip = None) = (wgz W = None)"
    using encoder_of_shape[of W1 W Gzip] A by (simp add: encoder_of_def)
  have x: "(encoder_of W2 Xz = None) = (xw W = None)"
    using encoder_of_shape[of W2 W Xz] A B by (simp add: encoder_of_def)
  have z: "(encoder_of W3 Zstd = None) = (zw W = None)"
    using encoder_of_shape[of W3 W Zstd] A B C by (simp add: encoder_of_def)
  have f: "fd (wtr W4) = fd (wtr W)"
    using A B C D by (simp add: shape_def)
  have r: "Writer_Close w W =
             (None, W4\<lparr>wtr := fst (snd (File_Close w4 (wtr W4)))\<rparr>, snd (snd (File_Close w4 (wtr W4))))"
    using a b c d by (simp add: Writer_Close_def split: prod.splits)
  have "log (snd (snd (File_Close w4 (wtr W4)))) = log w4 @ [Closed (fd (wtr W4))]"
    by (rule File_Close_log) simp
  then show ?thesis
    using r A B C D g x z f by simp
qed


lemma format_of_name_not_stdout: "format_of_name f = Some fmt \<Longrightarrow> f \<noteq> ''-''"
  by (auto simp: format_of_name_def ToLower_def lower_char_def HasSuffix_def)

lemma write_flags_bits:
  "write_flags mod 4 = 1" "has_bit write_flags 64" "\<not> has_bit write_flags 1024"
  by (simp_all add: write_flags_def has_bit_def)

lemma os_OpenFile_fresh:
  assumes "fs w (filepath_Dir w f) = Some Directory" and "fs w f = None" and "f \<noteq> []"
  shows "os_OpenFile w f write_flags perm =
           (Inr \<lparr>fd = FileH f, fd_write = True, fd_append = False, fd_pos = 0, fd_closed = False\<rparr>,
            w\<lparr>fs := (fs w)(f \<mapsto> File [] (clear_umask perm (umask w)))\<rparr>)"
  using assms os_Stat_fresh[OF assms(3,2,1)]
  by (simp add: os_OpenFile_def Let_def write_flags_bits)

lemma WopenFile_fresh:
  assumes "format_of_name f = Some fmt"
    and "fs w (filepath_Dir w f) = Some Directory" and "fs w f = None"
    and "fmt = Gzip \<or> new_encoder_error w fmt = None"
  shows "\<exists>W0. WopenFile w f write_flags perm =
                 ((Some W0, None), w\<lparr>fs := (fs w)(f \<mapsto> File [] (clear_umask perm (umask w)))\<rparr>)
            \<and> wtr W0 = \<lparr>fd = FileH f, fd_write = True, fd_append = False, fd_pos = 0,
                         fd_closed = False\<rparr>"
proof -
  have n: "f \<noteq> ''-''" using assms(1) by (rule format_of_name_not_stdout)
  have ne: "f \<noteq> []" using assms(1) by (rule format_of_name_nonempty)
  have o: "(if f = ''-'' then (Inr os_Stdout, w)
            else let dir = filepath_Dir w f; st = os_Stat w dir
                 in if (case st of Inr fi \<Rightarrow> \<not> IsDir fi | Inl err \<Rightarrow> False)
                    then (Inl (NonDirectoryParent dir), w)
                    else let w1 = (if IsNotExist st then os_MkdirAll w dir else w)
                         in os_OpenFile w1 f write_flags perm)
           = (Inr \<lparr>fd = FileH f, fd_write = True, fd_append = False, fd_pos = 0, fd_closed = False\<rparr>,
              w\<lparr>fs := (fs w)(f \<mapsto> File [] (clear_umask perm (umask w)))\<rparr>)"
    using n ne assms(2,3)
    by (simp add: os_Stat_there IsDir_def IsNotExist_def os_OpenFile_fresh)
  show ?thesis
    unfolding WopenFile_def o
    using assms(1,4)
    by (auto simp: format_of_name_def Let_def new_encoder_opt_def split: if_splits)
qed

text \<open>
  Claim C4, as the code has it. \<^verbatim>\<open>Close\<close> makes its calls in one fixed order: the flush
  of the buffer, the flush of the gzip or zstd encoder, the close of the encoder that
  is there, the close of the file. It makes every one of them whatever the earlier ones
  returned, keeps none of their errors and returns nil.
\<close>

theorem Writer_Close_order:
  "fst (Writer_Close w W) = None
   \<and> log (snd (snd (Writer_Close w W))) =
       log w @ [Flushed BufioW]
         @ (if wgz W = None then [] else [Flushed (EncoderH Gzip)])
         @ (if zw W = None then [] else [Flushed (EncoderH Zstd)])
         @ (if wgz W = None then [] else [Closed (EncoderH Gzip)])
         @ (if xw W = None then [] else [Closed (EncoderH Xz)])
         @ (if zw W = None then [] else [Closed (EncoderH Zstd)])
         @ [Closed (fd (wtr W))]"
  by (rule Writer_Close_calls)

theorem Writer_Close_order_witness:
  "fst (Writer_Close failing_world example_writer) = None
   \<and> log (snd (snd (Writer_Close failing_world example_writer))) =
       [Flushed BufioW, Flushed (EncoderH Gzip), Closed (EncoderH Gzip),
        Closed (FileH ''/tmp/a.gz'')]"
proof -
  have "log failing_world = []" by (simp add: failing_world_def example_world_def)
  then show ?thesis
    using Writer_Close_order[of failing_world example_writer]
    by (simp add: example_writer_def)
qed

lemma fresh_example:
  "fs failing_world (filepath_Dir failing_world ''/tmp/a.gz'') = Some Directory"
  "fs failing_world ''/tmp/a.gz'' = None"
  "fs example_world (filepath_Dir example_world ''/tmp/a.gz'') = Some Directory"
  "fs example_world ''/tmp/a.gz'' = None"
  by (simp_all add: failing_world_def example_world_def example_Dir_def)

text \<open>
  Claim C4 as stated fails where a step of \<^verbatim>\<open>Close\<close> fails: in a world where every
  close returns an error, closing a gzip writer closes the encoder and the file, both
  closes fail, and \<^verbatim>\<open>Close\<close> returns nil.
\<close>

theorem Writer_Close_returns_nil_on_failure:
  "close_error failing_world (EncoderH Gzip) = Some (External ''close failed'')
   \<and> close_error failing_world (FileH ''/tmp/a.gz'') = Some (External ''close failed'')
   \<and> close_report failing_world ''/tmp/a.gz'' write_flags 420 [0x61] =
       Inr (None, [Flushed BufioW, Flushed (EncoderH Gzip), Closed (EncoderH Gzip),
                   Closed (FileH ''/tmp/a.gz'')])"
proof -
  obtain W0 w1 where o: "WopenFile failing_world ''/tmp/a.gz'' write_flags 420 = ((Some W0, None), w1)"
    and h: "wtr W0 = \<lparr>fd = FileH ''/tmp/a.gz'', fd_write = True, fd_append = False, fd_pos = 0,
                      fd_closed = False\<rparr>"
    using WopenFile_fresh[OF format_example(1) fresh_example(1,2), of 420] by auto
  have e: "snd (fst (WopenFile failing_world ''/tmp/a.gz'' write_flags 420)) = None"
    using o by simp
  obtain W2 w2 buf pend where a: "write_all failing_world ''/tmp/a.gz'' write_flags 420 [0x61] = Inr (W2, w2)"
    and s: "enc_state W2 Gzip buf pend []" and t: "wtr W2 = wtr W0"
    using write_all_enc[OF e format_example(1), of "[0x61]"] o by auto
  have sh: "wgz W2 \<noteq> None" "xw W2 = None" "zw W2 = None"
    using enc_stateD(4)[OF s] enc_stateD(5)[OF s, of Xz] enc_stateD(5)[OF s, of Zstd]
    by (simp_all add: encoder_of_def)
  have "close_report failing_world ''/tmp/a.gz'' write_flags 420 [0x61] =
          Inr (fst (Writer_Close (w2\<lparr>log := []\<rparr>) W2),
               log (snd (snd (Writer_Close (w2\<lparr>log := []\<rparr>) W2))))"
    using a by (simp add: close_report_def write_then_close_def split: prod.splits)
  then show ?thesis
    using Writer_Close_calls[of "w2\<lparr>log := []\<rparr>" W2] sh t h
    by (simp add: failing_world_def)
qed


subsection \<open>Writing a compressed file and reading it back\<close>

lemma close_encoder_none:
  "encoder_of W fmt = None \<Longrightarrow> close_encoder w W fmt = (W, w)"
  by (simp add: close_encoder_def)

lemma close_encoder_active:
  assumes "encoder_of W fmt = Some \<lparr>enc_pending = p, enc_emitted = e, enc_closed = False\<rparr>"
    and "close_error w (EncoderH fmt) = None"
    and "wtr W = \<lparr>fd = FileH f, fd_write = True, fd_append = a, fd_pos = 0, fd_closed = False\<rparr>"
    and "fs w f = Some (File [] m)"
  shows "\<exists>W' w'. close_encoder w W fmt = (W', w')
            \<and> fs w' = (fs w)(f \<mapsto> File (encode w fmt (e @ p)) m) \<and> frame w w'
            \<and> (\<forall>fmt'. fmt' \<noteq> fmt \<longrightarrow> encoder_of W' fmt' = encoder_of W fmt')"
  using assms
  by (simp add: close_encoder_def Encoder_Close_def close_handle_def record_event_def
        File_Write_def Let_def frame_def)

lemma File_Close_fs:
  "fs (snd (snd (File_Close w h))) = fs w \<and> frame w (snd (snd (File_Close w h)))"
  by (simp add: File_Close_def close_handle_def record_event_def Let_def frame_def)

lemma Writer_Close_enc:
  assumes s: "enc_state W fmt buf pend emit" and ce: "close_error w (EncoderH fmt) = None"
    and h: "wtr W = \<lparr>fd = FileH f, fd_write = True, fd_append = a, fd_pos = 0, fd_closed = False\<rparr>"
    and fl: "fs w f = Some (File [] m)"
  shows "\<exists>W' w'. Writer_Close w W = (None, W', w')
            \<and> fs w' = (fs w)(f \<mapsto> File (encode w fmt (emit @ pend @ buf)) m) \<and> frame w w'"
proof -
  obtain W1 w1 where a: "Writer_Flush w W = (W1, w1)"
    and w1: "w1 = w\<lparr>log := log w @ [Flushed BufioW]
                           @ (if fmt = Xz then [] else [Flushed (EncoderH fmt)])\<rparr>"
    and t1: "wtr W1 = wtr W"
    and s1: "if fmt = Xz \<or> flush_error w (EncoderH fmt) \<noteq> None
             then enc_state W1 fmt [] (pend @ buf) emit
             else enc_state W1 fmt [] [] (emit @ pend @ buf)"
    using Writer_Flush_enc[OF s, of w] by blast
  obtain p1 e1 where s1': "enc_state W1 fmt [] p1 e1" and pe: "e1 @ p1 = emit @ pend @ buf"
    using s1 by (auto split: if_splits)
  have f1: "frame w w1" "fs w1 = fs w" by (simp_all add: w1 frame_def)
  have act: "encoder_of W1 fmt = Some \<lparr>enc_pending = p1, enc_emitted = e1, enc_closed = False\<rparr>"
    and oth: "\<And>fmt'. fmt' \<noteq> fmt \<Longrightarrow> encoder_of W1 fmt' = None"
    using enc_stateD(4,5)[OF s1'] by auto
  have ce1: "close_error w1 (EncoderH fmt) = None" using frameD(2)[OF f1(1)] ce by simp
  have en1: "encode w1 = encode w" using frameD(3)[OF f1(1)] .
  obtain Wc wc where c: "close_encoder w1 W1 fmt = (Wc, wc)"
    and fsc: "fs wc = (fs w1)(f \<mapsto> File (encode w1 fmt (e1 @ p1)) m)" and frc: "frame w1 wc"
    and othc: "\<forall>fmt'. fmt' \<noteq> fmt \<longrightarrow> encoder_of Wc fmt' = encoder_of W1 fmt'"
    using close_encoder_active[OF act ce1 h[folded t1], of m] fl f1(2) by auto
  have r: "\<exists>W4. (case close_encoder w1 W1 Gzip of (W2, w2) \<Rightarrow>
               case close_encoder w2 W2 Xz of (W3, w3) \<Rightarrow>
               close_encoder w3 W3 Zstd) = (W4, wc)"
  proof (cases fmt)
    case Gzip
    then show ?thesis using c oth othc by (simp add: close_encoder_none)
  next
    case Xz
    then show ?thesis using c oth othc by (simp add: close_encoder_none)
  next
    case Zstd
    then show ?thesis using c oth othc by (simp add: close_encoder_none)
  qed
  then obtain W4 where r4: "(case close_encoder w1 W1 Gzip of (W2, w2) \<Rightarrow>
               case close_encoder w2 W2 Xz of (W3, w3) \<Rightarrow>
               close_encoder w3 W3 Zstd) = (W4, wc)" by blast
  have wc': "Writer_Close w W =
               (None, W4\<lparr>wtr := fst (snd (File_Close wc (wtr W4)))\<rparr>, snd (snd (File_Close wc (wtr W4))))"
    using a r4 by (simp add: Writer_Close_def split: prod.splits)
  have "fs (snd (snd (File_Close wc (wtr W4)))) = (fs w)(f \<mapsto> File (encode w fmt (emit @ pend @ buf)) m)"
    using File_Close_fs[of wc "wtr W4"] fsc f1(2) en1 pe by simp
  moreover have "frame w (snd (snd (File_Close wc (wtr W4))))"
    using File_Close_fs[of wc "wtr W4"] frame_trans[OF f1(1) frc] frame_trans by blast
  ultimately show ?thesis using wc' by blast
qed

text \<open>
  What a successful \<^verbatim>\<open>WopenFile\<close> has done: it has opened \<open>f\<close> with \<^verbatim>\<open>os.OpenFile\<close>,
  in the world as it was or after \<^verbatim>\<open>os.MkdirAll\<close> on the parent.
\<close>

lemma os_MkdirAll_fs:
  "fs (os_MkdirAll w d) p = fs w p
   \<or> (p = d \<and> fs w p = None \<and> fs (os_MkdirAll w d) p = Some Directory)"
  by (simp add: os_MkdirAll_def record_event_def split: option.splits)

lemma os_MkdirAll_umask: "umask (os_MkdirAll w d) = umask w"
  by (simp add: os_MkdirAll_def record_event_def split: option.splits)

lemma os_OpenFile_opened:
  assumes "os_OpenFile w0 f flag perm = (Inr h, w1)" and "flag mod 4 = 1 \<or> flag mod 4 = 2"
  shows "h = \<lparr>fd = FileH f, fd_write = True, fd_append = has_bit flag 1024, fd_pos = 0,
              fd_closed = False\<rparr>"
    and "(fs w0 f = None \<and> fs w1 f = Some (File [] (clear_umask perm (umask w0))))
         \<or> (\<exists>c m. fs w0 f = Some (File c m)
                \<and> fs w1 f = Some (File (if has_bit flag 512 then [] else c) m))"
    and "p \<noteq> f \<Longrightarrow> fs w1 p = fs w0 p"
  using assms
  by (auto simp: os_OpenFile_def os_Stat_def Let_def
      split: option.splits node.splits if_splits)

lemma WopenFile_opened:
  assumes "WopenFile w f flag perm = ((Some W, None), w1)" and "f \<noteq> ''-''"
  shows "\<exists>w0. (w0 = w \<or> w0 = os_MkdirAll w (filepath_Dir w f))
            \<and> os_OpenFile w0 f flag perm = (Inr (wtr W), w1)"
proof -
  have c: "x = (Inr (wtr W), w1)"
    if "(case x of (Inl err, w') \<Rightarrow> ((None, Some err), w') | (Inr h, w') \<Rightarrow> k h w')
          = ((Some W, None), w1)"
      and "\<And>h w' W' e w''. k h w' = ((Some W', e), w'') \<Longrightarrow> wtr W' = h \<and> w'' = w'"
    for x :: "(error + os_File) \<times> world"
      and k :: "os_File \<Rightarrow> world \<Rightarrow> (Writer option \<times> error option) \<times> world"
  proof (cases x)
    case (Pair r w')
    show ?thesis
    proof (cases r)
      case (Inl e)
      then show ?thesis using that(1) Pair by simp
    next
      case (Inr h)
      then have "k h w' = ((Some W, None), w1)" using that(1) Pair by simp
      from that(2)[OF this] show ?thesis using Pair Inr by simp
    qed
  qed
  from assms(1)[unfolded WopenFile_def Let_def]
  have "(if f = ''-'' then (Inr os_Stdout, w)
         else if (case os_Stat w (filepath_Dir w f) of Inr fi \<Rightarrow> \<not> IsDir fi | Inl err \<Rightarrow> False)
              then (Inl (NonDirectoryParent (filepath_Dir w f)), w)
              else os_OpenFile
                     (if IsNotExist (os_Stat w (filepath_Dir w f))
                      then os_MkdirAll w (filepath_Dir w f) else w) f flag perm)
        = (Inr (wtr W), w1)"
    by (rule c) (auto split: if_splits)
  then show ?thesis using assms(2) by (auto split: if_splits)
qed

lemma WopenFile_empty_file:
  assumes "format_of_name f = Some fmt"
    and "snd (fst (WopenFile w f flag perm)) = None"
    and "flag mod 4 = 1 \<or> flag mod 4 = 2"
    and "starts_empty w f flag" and "owner_reads w f perm"
  shows "\<exists>W w1 m. WopenFile w f flag perm = ((Some W, None), w1)
            \<and> wtr W = \<lparr>fd = FileH f, fd_write = True, fd_append = has_bit flag 1024,
                        fd_pos = 0, fd_closed = False\<rparr>
            \<and> fs w1 f = Some (File [] m) \<and> has_bit m 256
            \<and> (\<forall>p. p \<noteq> f \<longrightarrow> fs w1 p = fs w p
                   \<or> (p = filepath_Dir w f \<and> fs w p = None \<and> fs w1 p = Some Directory))"
proof -
  have n: "f \<noteq> ''-''" using assms(1) by (rule format_of_name_not_stdout)
  obtain W w1 where o: "WopenFile w f flag perm = ((Some W, None), w1)"
    using WopenFile_no_error[OF assms(2)] by blast
  obtain w0 where w0: "w0 = w \<or> w0 = os_MkdirAll w (filepath_Dir w f)"
    and op: "os_OpenFile w0 f flag perm = (Inr (wtr W), w1)"
    using WopenFile_opened[OF o n] by blast
  have um: "umask w0 = umask w" using w0 os_MkdirAll_umask by auto
  have fs0: "fs w0 f = fs w f \<or> (fs w f = None \<and> fs w0 f = Some Directory)"
    using w0 os_MkdirAll_fs[of w "filepath_Dir w f" f] by auto
  have el: "\<forall>p. p \<noteq> f \<longrightarrow> fs w1 p = fs w p
              \<or> (p = filepath_Dir w f \<and> fs w p = None \<and> fs w1 p = Some Directory)"
  proof (intro allI impI)
    fix p assume "p \<noteq> f"
    then have "fs w1 p = fs w0 p" by (rule os_OpenFile_opened(3)[OF op assms(3)])
    then show "fs w1 p = fs w p
        \<or> (p = filepath_Dir w f \<and> fs w p = None \<and> fs w1 p = Some Directory)"
      using w0 os_MkdirAll_fs[of w "filepath_Dir w f" p] by auto
  qed
  note h = os_OpenFile_opened(1)[OF op assms(3)]
  from os_OpenFile_opened(2)[OF op assms(3)]
  have "\<exists>m. fs w1 f = Some (File [] m) \<and> has_bit m 256"
  proof
    assume a: "fs w0 f = None \<and> fs w1 f = Some (File [] (clear_umask perm (umask w0)))"
    then have "fs w f = None" using fs0 by auto
    then have "has_bit (clear_umask perm (umask w)) 256"
      using assms(5) by (simp add: owner_reads_def)
    then show ?thesis using a um by simp
  next
    assume "\<exists>c m. fs w0 f = Some (File c m)
              \<and> fs w1 f = Some (File (if has_bit flag 512 then [] else c) m)"
    then obtain c m where a: "fs w0 f = Some (File c m)"
      and b: "fs w1 f = Some (File (if has_bit flag 512 then [] else c) m)" by blast
    have "fs w f = Some (File c m)" using fs0 a by auto
    then have "c = [] \<or> has_bit flag 512" "has_bit m 256"
      using assms(4,5) by (simp_all add: starts_empty_def owner_reads_def)
    then show ?thesis using b by auto
  qed
  then show ?thesis using o h el by blast
qed

lemma write_then_close_fs:
  assumes "format_of_name f = Some fmt"
    and "snd (fst (WopenFile w f flag perm)) = None"
    and "flag mod 4 = 1 \<or> flag mod 4 = 2"
    and "starts_empty w f flag" and "owner_reads w f perm"
    and "close_error w (EncoderH fmt) = None"
  shows "\<exists>err w3 m. write_then_close w f flag perm B = Inr (err, w3)
            \<and> fs w3 f = Some (File (encode w fmt B) m) \<and> has_bit m 256
            \<and> frame w w3
            \<and> (\<forall>p. p \<noteq> f \<longrightarrow> fs w3 p = fs w p
                   \<or> (p = filepath_Dir w f \<and> fs w p = None \<and> fs w3 p = Some Directory))"
proof -
  obtain W0 w1 m where o: "WopenFile w f flag perm = ((Some W0, None), w1)"
    and h: "wtr W0 = \<lparr>fd = FileH f, fd_write = True, fd_append = has_bit flag 1024,
                      fd_pos = 0, fd_closed = False\<rparr>"
    and f1: "fs w1 f = Some (File [] m)" and r: "has_bit m 256"
    and el: "\<forall>p. p \<noteq> f \<longrightarrow> fs w1 p = fs w p
               \<or> (p = filepath_Dir w f \<and> fs w p = None \<and> fs w1 p = Some Directory)"
    using WopenFile_empty_file[OF assms(1-5)] by blast
  obtain W2 w2 buf pend where a: "write_all w f flag perm B = Inr (W2, w2)"
    and s: "enc_state W2 fmt buf pend []" and pb: "pend @ buf = B"
    and t: "wtr W2 = wtr W0" and fs2: "fs w2 = fs w1" and fr: "frame w w2"
    using write_all_enc[OF assms(2,1), of B] o by auto
  let ?w2 = "w2\<lparr>log := []\<rparr>"
  have fr2: "frame w ?w2" using fr by simp
  have ce: "close_error ?w2 (EncoderH fmt) = None" using frameD(2)[OF fr2] assms(6) by simp
  have fl: "fs ?w2 f = Some (File [] m)" using fs2 f1 by simp
  obtain W3 w3 where c: "Writer_Close ?w2 W2 = (None, W3, w3)"
    and fs3: "fs w3 = (fs ?w2)(f \<mapsto> File (encode ?w2 fmt ([] @ pend @ buf)) m)"
    and fr3: "frame ?w2 w3"
    using Writer_Close_enc[OF s ce h[folded t] fl] by blast
  have "fs w3 f = Some (File (encode w fmt B) m)"
    using fs3 pb frameD(3)[OF fr2] by simp
  moreover have "write_then_close w f flag perm B = Inr (None, w3)"
    using a c by (simp add: write_then_close_def)
  moreover have "\<forall>p. p \<noteq> f \<longrightarrow> fs w3 p = fs w p
      \<or> (p = filepath_Dir w f \<and> fs w p = None \<and> fs w3 p = Some Directory)"
    using el fs3 fs2 by simp
  ultimately show ?thesis using frame_trans[OF fr2 fr3] r by blast
qed

lemma plain_path_expand: "plain_path f \<Longrightarrow> ExpandUser w f = Inr f"
  by (simp add: plain_path_def ExpandUser_def)

lemma read_all_file:
  assumes "plain_path f" and "fs w f = Some (File c m)" and "has_bit m 256"
  shows "read_all w f =
           (case Buf w \<lparr>content = \<lparr>bytes = c, final = EOF\<rparr>, closer = Some (FileH f)\<rparr> of
              Inl e \<Rightarrow> Returned (Inl e)
            | Inr rd \<Rightarrow> Returned (Inr (unread (buffered rd))))"
proof -
  have x: "XReader w f = Inr \<lparr>content = \<lparr>bytes = c, final = EOF\<rparr>, closer = Some (FileH f)\<rparr>"
    using assms plain_path_expand[OF assms(1), of w]
    by (simp add: XReader_def plain_path_def os_Stat_def IsDir_def os_Open_def)
  have "fst (Ropen w f) = Returned (Buf w \<lparr>content = \<lparr>bytes = c, final = EOF\<rparr>, closer = Some (FileH f)\<rparr>)"
    using assms(1) x by (simp add: Ropen_def plain_path_def)
  then show ?thesis by (simp add: read_all_def split: sum.splits)
qed

lemma magic_lengths: "length gzip_magic = 2" "length xz_magic = 6" "length zst_magic = 4"
  by (simp_all add: gzip_magic_def xz_magic_def zst_magic_def)

lemma magic_of_simps:
  "magic_of Gzip = gzip_magic" "magic_of Xz = xz_magic" "magic_of Zstd = zst_magic"
  by (simp_all add: magic_of_def)

lemma Buf_sniff_encoded:
  assumes "encodes_well w fmt B"
  shows "\<exists>g. Buf_sniff w (NewReaderSize \<lparr>bytes = encode w fmt B, final = EOF\<rparr>)
              = Inr (NewReaderSize \<lparr>bytes = B, final = EOF\<rparr>, g)"
proof -
  let ?e = "encode w fmt B"
  have m: "take (length (magic_of fmt)) ?e = magic_of fmt" and l: "6 \<le> length ?e"
    and d: "decode w fmt \<lparr>bytes = ?e, final = EOF\<rparr> = Inr \<lparr>bytes = B, final = EOF\<rparr>"
    using assms by (simp_all add: encodes_well_def)
  show ?thesis
  proof (cases fmt)
    case Gzip
    then have "take 2 ?e = gzip_magic" using m by (simp add: magic_of_simps magic_lengths)
    then show ?thesis using l d Gzip by (simp add: Buf_sniff_eq)
  next
    case Xz
    then have x: "take 6 ?e = xz_magic" using m by (simp add: magic_of_simps magic_lengths)
    have "take 2 (take 6 ?e) = take 2 ?e" by simp
    then have "take 2 ?e \<noteq> gzip_magic" unfolding x by (auto simp: xz_magic_def gzip_magic_def)
    then show ?thesis using l d Xz x by (simp add: Buf_sniff_eq)
  next
    case Zstd
    then have z: "take 4 ?e = zst_magic" using m by (simp add: magic_of_simps magic_lengths)
    have "take 2 (take 4 ?e) = take 2 ?e" by simp
    then have g: "take 2 ?e \<noteq> gzip_magic" unfolding z by (auto simp: zst_magic_def gzip_magic_def)
    have x: "take 6 ?e \<noteq> xz_magic"
    proof
      assume a: "take 6 ?e = xz_magic"
      have "take 4 ?e = take 4 (take 6 ?e)" by simp
      also have "\<dots> = take 4 xz_magic" by (simp only: a)
      finally show False using z by (simp add: xz_magic_def zst_magic_def)
    qed
    show ?thesis using l d Zstd z g x by (simp add: Buf_sniff_eq)
  qed
qed

lemma Buf_encoded:
  assumes "encodes_well w fmt B"
  shows "(case Buf w \<lparr>content = \<lparr>bytes = encode w fmt B, final = EOF\<rparr>, closer = c\<rparr> of
            Inl e \<Rightarrow> Returned (Inl e)
          | Inr rd \<Rightarrow> Returned (Inr (unread (buffered rd))))
         = Returned (if B = [] then Inl ErrNoContent else Inr (strip_bom B))"
proof -
  let ?b = "NewReaderSize \<lparr>bytes = B, final = EOF\<rparr>"
  obtain g where sn: "Buf_sniff w (NewReaderSize \<lparr>bytes = encode w fmt B, final = EOF\<rparr>) = Inr (?b, g)"
    using Buf_sniff_encoded[OF assms] by blast
  have u: "unread ?b = B" by simp
  show ?thesis
  proof (cases "B = []")
    case True
    then show ?thesis using sn Buf_bom_empty[of ?b] by (simp add: Buf_def)
  next
    case False
    show ?thesis
    proof (cases "take 3 B = [0xEF, 0xBB, 0xBF]")
      case True
      then obtain b' where "Buf_bom ?b = Inr b'" "unread b' = drop 3 B"
        using Buf_bom_mark[of ?b] u by auto
      then show ?thesis using sn False True by (simp add: Buf_def strip_bom_def)
    next
      case nb: False
      then have "fst (DecodeRune (unread ?b)) \<noteq> 0xFEFF" using DecodeRune_FEFF_iff[of B] u by simp
      then obtain b' where "Buf_bom ?b = Inr b'" "unread b' = B"
        using Buf_bom_other[of ?b] u False by auto
      then show ?thesis using sn False nb by (simp add: Buf_def strip_bom_def)
    qed
  qed
qed

lemma write_then_read_eq:
  assumes "format_of_name f = Some fmt" and "plain_path f"
    and "snd (fst (WopenFile w f flag perm)) = None"
    and "flag mod 4 = 1 \<or> flag mod 4 = 2"
    and "starts_empty w f flag" and "owner_reads w f perm"
    and "close_error w (EncoderH fmt) = None"
    and "encodes_well w fmt B"
  shows "write_then_read w f flag perm B =
           Returned (if B = [] then Inl ErrNoContent else Inr (strip_bom B))"
proof -
  obtain err w3 m where c: "write_then_close w f flag perm B = Inr (err, w3)"
    and fs3: "fs w3 f = Some (File (encode w fmt B) m)" and r: "has_bit m 256"
    and fr: "frame w w3"
    using write_then_close_fs[OF assms(1,3-7), of B] by blast
  have ew: "encodes_well w3 fmt B"
    using assms(8) frameD(3,4)[OF fr] by (simp add: encodes_well_def)
  have "fs w3 f = Some (File (encode w3 fmt B) m)"
    using fs3 frameD(3)[OF fr] by simp
  from read_all_file[OF assms(2) this r] Buf_encoded[OF ew]
  have "read_all w3 f = Returned (if B = [] then Inl ErrNoContent else Inr (strip_bom B))"
    by simp
  then show ?thesis using c by (simp add: write_then_read_def)
qed

subsection \<open>A writer on a file opened without write access\<close>

text \<open>
  \<^verbatim>\<open>Wopen\<close> passes \<^verbatim>\<open>O_RDONLY\<close> to \<^verbatim>\<open>os.OpenFile\<close>. The file it opens refuses every
  write, so closing the writer leaves every file as it was.
\<close>

lemma os_OpenFile_read_only:
  assumes "os_OpenFile w0 f O_RDONLY perm = (Inr h, w1)"
  shows "\<not> fd_write h \<and> w1 = w0"
  using assms
  by (auto simp: os_OpenFile_def O_RDONLY_def has_bit_def Let_def
      split: sum.splits node.splits if_splits)

lemma close_encoder_read_only:
  assumes "encoder_of W fmt = Some e" and "\<not> fd_write (wtr W)"
  shows "\<exists>W' w'. close_encoder w W fmt = (W', w') \<and> fs w' = fs w \<and> frame w w'
            \<and> wtr W' = wtr W
            \<and> (\<forall>fmt'. fmt' \<noteq> fmt \<longrightarrow> encoder_of W' fmt' = encoder_of W fmt')"
  using assms
  by (simp add: close_encoder_def Encoder_Close_def close_handle_def record_event_def
        File_Write_def Let_def frame_def split: option.splits)

lemma Writer_Close_read_only:
  assumes s: "enc_state W fmt buf pend emit" and ro: "\<not> fd_write (wtr W)"
  shows "\<exists>W' w'. Writer_Close w W = (None, W', w') \<and> fs w' = fs w \<and> frame w w'"
proof -
  obtain W1 w1 where a: "Writer_Flush w W = (W1, w1)"
    and w1: "w1 = w\<lparr>log := log w @ [Flushed BufioW]
                           @ (if fmt = Xz then [] else [Flushed (EncoderH fmt)])\<rparr>"
    and t1: "wtr W1 = wtr W"
    and s1: "if fmt = Xz \<or> flush_error w (EncoderH fmt) \<noteq> None
             then enc_state W1 fmt [] (pend @ buf) emit
             else enc_state W1 fmt [] [] (emit @ pend @ buf)"
    using Writer_Flush_enc[OF s, of w] by blast
  obtain p1 e1 where s1': "enc_state W1 fmt [] p1 e1"
    using s1 by (auto split: if_splits)
  have f1: "frame w w1" "fs w1 = fs w" by (simp_all add: w1 frame_def)
  have act: "encoder_of W1 fmt = Some \<lparr>enc_pending = p1, enc_emitted = e1, enc_closed = False\<rparr>"
    and oth: "\<And>fmt'. fmt' \<noteq> fmt \<Longrightarrow> encoder_of W1 fmt' = None"
    using enc_stateD(4,5)[OF s1'] by auto
  have ro1: "\<not> fd_write (wtr W1)" using ro t1 by simp
  obtain Wc wc where c: "close_encoder w1 W1 fmt = (Wc, wc)"
    and fsc: "fs wc = fs w1" and frc: "frame w1 wc"
    and othc: "\<forall>fmt'. fmt' \<noteq> fmt \<longrightarrow> encoder_of Wc fmt' = encoder_of W1 fmt'"
    using close_encoder_read_only[OF act ro1, of w1] by blast
  have r: "\<exists>W4. (case close_encoder w1 W1 Gzip of (W2, w2) \<Rightarrow>
               case close_encoder w2 W2 Xz of (W3, w3) \<Rightarrow>
               close_encoder w3 W3 Zstd) = (W4, wc)"
  proof (cases fmt)
    case Gzip
    then show ?thesis using c oth othc by (simp add: close_encoder_none)
  next
    case Xz
    then show ?thesis using c oth othc by (simp add: close_encoder_none)
  next
    case Zstd
    then show ?thesis using c oth othc by (simp add: close_encoder_none)
  qed
  then obtain W4 where r4: "(case close_encoder w1 W1 Gzip of (W2, w2) \<Rightarrow>
               case close_encoder w2 W2 Xz of (W3, w3) \<Rightarrow>
               close_encoder w3 W3 Zstd) = (W4, wc)" by blast
  have wc': "Writer_Close w W =
               (None, W4\<lparr>wtr := fst (snd (File_Close wc (wtr W4)))\<rparr>, snd (snd (File_Close wc (wtr W4))))"
    using a r4 by (simp add: Writer_Close_def split: prod.splits)
  have "fs (snd (snd (File_Close wc (wtr W4)))) = fs w"
    using File_Close_fs[of wc "wtr W4"] fsc f1(2) by simp
  moreover have "frame w (snd (snd (File_Close wc (wtr W4))))"
    using File_Close_fs[of wc "wtr W4"] frame_trans[OF f1(1) frc] frame_trans by blast
  ultimately show ?thesis using wc' by blast
qed

lemma Wopen_keeps_files:
  assumes "format_of_name f = Some fmt" and "snd (fst (Wopen w f)) = None"
  shows "\<exists>err w3. write_then_close w f O_RDONLY 0 B = Inr (err, w3) \<and> frame w w3
            \<and> (fs w3 = fs w \<or> fs w3 = fs (os_MkdirAll w (filepath_Dir w f)))"
proof -
  have n: "f \<noteq> ''-''" using assms(1) by (rule format_of_name_not_stdout)
  have e: "snd (fst (WopenFile w f O_RDONLY 0)) = None" using assms(2) by (simp add: Wopen_def)
  obtain W0 w1 where o: "WopenFile w f O_RDONLY 0 = ((Some W0, None), w1)"
    using WopenFile_no_error[OF e] by blast
  obtain w0 where w0: "w0 = w \<or> w0 = os_MkdirAll w (filepath_Dir w f)"
    and op: "os_OpenFile w0 f O_RDONLY 0 = (Inr (wtr W0), w1)"
    using WopenFile_opened[OF o n] by blast
  have ro: "\<not> fd_write (wtr W0)" and w10: "w1 = w0"
    using os_OpenFile_read_only[OF op] by simp_all
  obtain W2 w2 buf pend where a: "write_all w f O_RDONLY 0 B = Inr (W2, w2)"
    and s: "enc_state W2 fmt buf pend []"
    and t: "wtr W2 = wtr W0" and fs2: "fs w2 = fs w1" and fr: "frame w w2"
    using write_all_enc[OF e assms(1), of B] o by auto
  let ?w2 = "w2\<lparr>log := []\<rparr>"
  have fr2: "frame w ?w2" using fr by simp
  have ro2: "\<not> fd_write (wtr W2)" using ro t by simp
  obtain W3 w3 where c: "Writer_Close ?w2 W2 = (None, W3, w3)"
    and fs3: "fs w3 = fs ?w2" and fr3: "frame ?w2 w3"
    using Writer_Close_read_only[OF s ro2, of ?w2] by blast
  have "fs w3 = fs w0" using fs3 fs2 w10 by simp
  moreover have "write_then_close w f O_RDONLY 0 B = Inr (None, w3)"
    using a c by (simp add: write_then_close_def)
  ultimately show ?thesis using frame_trans[OF fr2 fr3] w0 by blast
qed

subsection \<open>The round trip\<close>

lemma example_codec:
  "encodes_well example_world Zstd [0x61, 0x62]"
  "encodes_well stocked_world Gzip [0x61, 0x62]"
  "encodes_well example_world Xz [0x61]"
  "encodes_well example_world Xz []"
  "encodes_well example_world Gzip [0xEF, 0xBB, 0xBF, 0x61]"
  "encodes_well stocked_world Gzip [0x6f, 0x6c, 0x64]"
  by (simp_all add: stocked_world_def example_world_def encodes_well_def store_encode_def
        store_decode_def magic_of_def gzip_magic_def xz_magic_def zst_magic_def)

lemma example_close:
  "close_error example_world h = None" "close_error stocked_world h = None"
  by (simp_all add: stocked_world_def example_world_def)

lemma example_paths:
  "plain_path ''/tmp/a.gz''" "plain_path ''/tmp/a.zst''" "plain_path ''/tmp/old.gz''"
  "plain_path ''/new/a.xz''" "plain_path ''/tmp/a.xz''"
  "format_of_name ''/tmp/old.gz'' = Some Gzip" "format_of_name ''/new/a.xz'' = Some Xz"
  by (simp_all add: plain_path_def HasPrefix_def format_of_name_def ToLower_def lower_char_def
        HasSuffix_def)

lemma example_mode: "has_bit (clear_umask 420 18) 256"
  by (simp add: clear_umask_def has_bit_def upt_rec)

lemma example_files:
  "starts_empty example_world ''/tmp/a.gz'' write_flags"
  "starts_empty example_world ''/tmp/a.zst'' write_flags"
  "starts_empty example_world ''/new/a.xz'' write_flags"
  "starts_empty stocked_world ''/tmp/old.gz'' write_flags"
  "starts_empty example_world ''/tmp/a.xz'' write_flags"
  "owner_reads example_world ''/tmp/a.gz'' 420"
  "owner_reads example_world ''/tmp/a.zst'' 420"
  "owner_reads example_world ''/new/a.xz'' 420"
  "owner_reads stocked_world ''/tmp/old.gz'' 420"
  "owner_reads example_world ''/tmp/a.xz'' 420"
  using example_mode
  by (simp_all add: starts_empty_def owner_reads_def stocked_world_def example_world_def
        write_flags_def has_bit_def)

lemma open_more_examples:
  "snd (fst (WopenFile stocked_world ''/tmp/old.gz'' write_flags 420)) = None"
  "snd (fst (WopenFile example_world ''/new/a.xz'' write_flags 420)) = None"
  "snd (fst (Wopen stocked_world ''/tmp/old.gz'')) = None"
  by (simp_all add: Wopen_def O_RDONLY_def WopenFile_def stocked_world_def example_world_def
        example_Dir_def os_Stat_def IsDir_def IsNotExist_def os_OpenFile_def os_MkdirAll_def
        record_event_def write_flags_def has_bit_def Let_def ToLower_def lower_char_def
        HasSuffix_def)

lemma home_example:
  "format_of_name ''~/a.gz'' = Some Gzip"
  "snd (fst (WopenFile example_world ''~/a.gz'' write_flags 420)) = None"
  "starts_empty example_world ''~/a.gz'' write_flags"
  "owner_reads example_world ''~/a.gz'' 420"
  by (simp_all add: format_of_name_def WopenFile_def example_world_def
        example_Dir_def os_Stat_def IsDir_def IsNotExist_def os_OpenFile_def os_MkdirAll_def
        record_event_def write_flags_def has_bit_def Let_def ToLower_def lower_char_def
        HasSuffix_def starts_empty_def owner_reads_def clear_umask_def upt_rec)

text \<open>
  Claim C1, as the code has it. Let \<open>f\<close> be a plain path with one of the three
  suffixes, and let \<^verbatim>\<open>WopenFile\<close> open it without error and with write access
  (\<^verbatim>\<open>O_WRONLY\<close> or \<^verbatim>\<open>O_RDWR\<close>), as a file that is new, empty or truncated by \<^verbatim>\<open>O_TRUNC\<close>,
  and that its owner may read. Let the close of the encoder report no error, and let
  the codec encode \<open>B\<close> to bytes that start with the format's signature, are at least
  six, and decode to \<open>B\<close> again. Then writing \<open>B\<close>, closing the writer and opening \<open>f\<close>
  with \<^verbatim>\<open>Ropen\<close> gives a reader that delivers \<open>B\<close> without its leading byte-order mark,
  if it has one; when \<open>B\<close> is empty, \<^verbatim>\<open>Ropen\<close> fails with \<open>ErrNoContent\<close>.
\<close>

theorem write_then_read_round_trip:
  assumes "format_of_name f = Some fmt" and "plain_path f"
    and "snd (fst (WopenFile w f flag perm)) = None"
    and "flag mod 4 = 1 \<or> flag mod 4 = 2"
    and "starts_empty w f flag" and "owner_reads w f perm"
    and "close_error w (EncoderH fmt) = None"
    and "encodes_well w fmt B"
  shows "write_then_read w f flag perm B =
           Returned (if B = [] then Inl ErrNoContent else Inr (strip_bom B))"
  using assms by (rule write_then_read_eq)

text \<open>
  The theorem at a new zstd file, at a gzip file that is there and is truncated, at an
  xz file whose directory \<^verbatim>\<open>WopenFile\<close> has to make, and at the empty byte sequence.
\<close>

theorem write_then_read_round_trip_witness:
  "write_then_read example_world ''/tmp/a.zst'' write_flags 420 [0x61, 0x62]
     = Returned (Inr [0x61, 0x62])
   \<and> fs stocked_world ''/tmp/old.gz'' = Some (File (store_encode Gzip [0x6f, 0x6c, 0x64]) 420)
   \<and> write_then_read stocked_world ''/tmp/old.gz'' write_flags 420 [0x61, 0x62]
     = Returned (Inr [0x61, 0x62])
   \<and> fs example_world ''/new'' = None
   \<and> write_then_read example_world ''/new/a.xz'' write_flags 420 [0x61] = Returned (Inr [0x61])
   \<and> write_then_read example_world ''/tmp/a.xz'' write_flags 420 [] = Returned (Inl ErrNoContent)"
proof -
  have m: "write_flags mod 4 = 1 \<or> write_flags mod 4 = 2"
    by (simp add: write_flags_bits)
  have "write_then_read example_world ''/tmp/a.zst'' write_flags 420 [0x61, 0x62]
          = Returned (Inr [0x61, 0x62])"
    using write_then_read_round_trip[OF format_example(3) example_paths(2) open_example(3) m
        example_files(2,7) example_close(1) example_codec(1)]
    by (simp add: strip_bom_def)
  moreover have "write_then_read stocked_world ''/tmp/old.gz'' write_flags 420 [0x61, 0x62]
          = Returned (Inr [0x61, 0x62])"
    using write_then_read_round_trip[OF example_paths(6,3) open_more_examples(1) m
        example_files(4,9) example_close(2) example_codec(2)]
    by (simp add: strip_bom_def)
  moreover have "write_then_read example_world ''/new/a.xz'' write_flags 420 [0x61]
          = Returned (Inr [0x61])"
    using write_then_read_round_trip[OF example_paths(7,4) open_more_examples(2) m
        example_files(3,8) example_close(1) example_codec(3)]
    by (simp add: strip_bom_def)
  moreover have "write_then_read example_world ''/tmp/a.xz'' write_flags 420 []
          = Returned (Inl ErrNoContent)"
    using write_then_read_round_trip[OF format_example(2) example_paths(5) open_example(2) m
        example_files(5,10) example_close(1) example_codec(4)]
    by simp
  moreover have "fs stocked_world ''/tmp/old.gz''
      = Some (File (store_encode Gzip [0x6f, 0x6c, 0x64]) 420)"
    "fs example_world ''/new'' = None"
    by (simp_all add: stocked_world_def example_world_def)
  ultimately show ?thesis by blast
qed

text \<open>
  Claim C1 as stated fails in three ways. A \<open>B\<close> that starts with a byte-order mark
  does not come back: written to a gzip file and read back, the four bytes EF BB BF 61
  come back as the one byte 61. \<^verbatim>\<open>Wopen\<close>, which is \<^verbatim>\<open>WopenFile\<close> with \<^verbatim>\<open>O_RDONLY\<close> and
  the permissions 0, writes nothing: on a path that is not there it returns \<open>ENOENT\<close>
  and no writer, and on a gzip file that is there the write and the close leave the
  file as it was, so that reading gives the old content. And a descriptor that starts
  with \<^verbatim>\<open>~\<close> names two files: \<^verbatim>\<open>WopenFile\<close> writes below the directory \<^verbatim>\<open>~\<close>, \<^verbatim>\<open>Ropen\<close>
  looks in the home directory of the user.
\<close>

theorem round_trip_counterexamples:
  "write_then_read example_world ''/tmp/a.gz'' write_flags 420 [0xEF, 0xBB, 0xBF, 0x61]
     = Returned (Inr [0x61])
   \<and> fst (Wopen example_world ''/tmp/a.gz'') = (None, Some ENOENT)
   \<and> write_then_read example_world ''/tmp/a.gz'' O_RDONLY 0 [0x61] = Returned (Inl ENOENT)
   \<and> write_then_read stocked_world ''/tmp/old.gz'' O_RDONLY 0 [0x61]
     = Returned (Inr [0x6f, 0x6c, 0x64])
   \<and> write_then_read example_world ''~/a.gz'' write_flags 420 [0x61, 0x62]
     = Returned (Inl ENOENT)"
proof -
  have m: "write_flags mod 4 = 1 \<or> write_flags mod 4 = 2"
    by (simp add: write_flags_bits)
  have a: "write_then_read example_world ''/tmp/a.gz'' write_flags 420 [0xEF, 0xBB, 0xBF, 0x61]
          = Returned (Inr [0x61])"
    using write_then_read_eq[OF format_example(1) example_paths(1) open_example(1) m
        example_files(1,6) example_close(1) example_codec(5)]
    by (simp add: strip_bom_def)
  have b: "WopenFile example_world ''/tmp/a.gz'' O_RDONLY 0 = ((None, Some ENOENT), example_world)"
    by (simp add: O_RDONLY_def WopenFile_def example_world_def example_Dir_def os_Stat_def
          IsDir_def IsNotExist_def os_OpenFile_def has_bit_def Let_def)
  have c: "write_then_read example_world ''/tmp/a.gz'' O_RDONLY 0 [0x61] = Returned (Inl ENOENT)"
    using b by (simp add: write_then_read_def write_then_close_def write_all_def)
  have e: "write_then_read stocked_world ''/tmp/old.gz'' O_RDONLY 0 [0x61]
      = Returned (Inr [0x6f, 0x6c, 0x64])"
  proof -
    obtain err w3 where d: "write_then_close stocked_world ''/tmp/old.gz'' O_RDONLY 0 [0x61] = Inr (err, w3)"
      and fr: "frame stocked_world w3"
      and fs3: "fs w3 = fs stocked_world
                \<or> fs w3 = fs (os_MkdirAll stocked_world (filepath_Dir stocked_world ''/tmp/old.gz''))"
      using Wopen_keeps_files[OF example_paths(6) open_more_examples(3), of "[0x61]"] by blast
    have "fs (os_MkdirAll stocked_world (filepath_Dir stocked_world ''/tmp/old.gz''))
            = fs stocked_world"
      by (simp add: os_MkdirAll_def record_event_def stocked_world_def example_world_def
            example_Dir_def)
    then have "fs w3 ''/tmp/old.gz'' = Some (File (store_encode Gzip [0x6f, 0x6c, 0x64]) 420)"
      using fs3 by (auto simp: stocked_world_def)
    moreover have "encode w3 = store_encode"
      using frameD(3)[OF fr] by (simp add: stocked_world_def example_world_def)
    ultimately have f3: "fs w3 ''/tmp/old.gz'' = Some (File (encode w3 Gzip [0x6f, 0x6c, 0x64]) 420)"
      by simp
    have ew: "encodes_well w3 Gzip [0x6f, 0x6c, 0x64]"
      using example_codec(6) frameD(3,4)[OF fr]
      by (simp add: encodes_well_def)
    have r: "has_bit 420 256" by (simp add: has_bit_def)
    from read_all_file[OF example_paths(3) f3 r] Buf_encoded[OF ew]
    have "read_all w3 ''/tmp/old.gz'' = Returned (Inr [0x6f, 0x6c, 0x64])"
      by (simp add: strip_bom_def)
    then show ?thesis using d by (simp add: write_then_read_def)
  qed
  have h: "write_then_read example_world ''~/a.gz'' write_flags 420 [0x61, 0x62]
      = Returned (Inl ENOENT)"
  proof -
    obtain err w3 where d: "write_then_close example_world ''~/a.gz'' write_flags 420 [0x61, 0x62]
          = Inr (err, w3)"
      and fr: "frame example_world w3"
      and el: "\<forall>p. p \<noteq> ''~/a.gz'' \<longrightarrow> fs w3 p = fs example_world p
                 \<or> (p = filepath_Dir example_world ''~/a.gz'' \<and> fs example_world p = None
                     \<and> fs w3 p = Some Directory)"
      using write_then_close_fs[OF home_example(1,2) m home_example(3,4) example_close(1),
          of "[0x61, 0x62]"]
      by blast
    have dir: "filepath_Dir example_world ''~/a.gz'' = ''~''"
      by (simp add: example_world_def example_Dir_def)
    have n: "fs w3 ''/home/alice//a.gz'' = None" "fs w3 ''/home/alice/'' = None"
      "fs w3 ''/home/alice'' = None" "fs w3 ''/home'' = None" "fs w3 ''/'' = None"
      using el[rule_format, of "''/home/alice//a.gz''"] el[rule_format, of "''/home/alice/''"]
        el[rule_format, of "''/home/alice''"] el[rule_format, of "''/home''"]
        el[rule_format, of "''/''"]
      by (simp_all add: dir) (simp_all add: example_world_def)
    have u: "current_user w3 = Inr ''/home/alice''" "filepath_Dir w3 = example_Dir"
      using fr by (simp_all add: frame_def example_world_def)
    have "read_all w3 ''~/a.gz'' = Returned (Inl ENOENT)"
      using n u
      by (simp add: read_all_def Ropen_def XReader_def HasPrefix_def ExpandUser_def os_Stat_def
            example_Dir_def Let_def)
    then show ?thesis using d by (simp add: write_then_read_def)
  qed
  show ?thesis using a b c e h by (simp add: Wopen_def)
qed

text \<open>
  In general, \<^verbatim>\<open>Wopen\<close> on a path that is not there yet returns the error of
  \<^verbatim>\<open>os.OpenFile\<close> and no writer.
\<close>

lemma Wopen_missing_file:
  assumes "f \<noteq> ''-''" and "fs w (filepath_Dir w f) = Some Directory" and "fs w f = None"
  shows "fst (Wopen w f) = (None, Some ENOENT)"
proof -
  have "\<not> below_file w f f" using assms(2) by (cases f) (simp_all add: Let_def)
  then have "os_Stat w f = Inl ENOENT" using assms(3) by (simp add: os_Stat_def)
  then show ?thesis
    using assms(1,2)
    by (simp add: Wopen_def WopenFile_def O_RDONLY_def os_Stat_there IsDir_def IsNotExist_def
          os_OpenFile_def has_bit_def Let_def)
qed

end
